theory Spec2Isabelle
  imports Complex_Main
begin

section \<open>JavaScript numbers\<close>

text \<open>
  A JavaScript number is an IEEE 754 binary64 value. \<open>Fin s m e\<close> stands for
  \<open>(-1)^s * m * 2^e\<close>; \<open>s = True\<close> is the negative sign, so there are two zeros.
  The doubles are the values \<open>NaN\<close>, \<open>Inf s\<close> and the \<open>Fin s m e\<close> in canonical
  form (\<open>is_double\<close>): 53 bits of mantissa, the exponent of the last bit between -1074
  and 971, and a mantissa below \<open>2^52\<close> only at the smallest exponent (zero and the
  subnormal numbers).
\<close>

datatype jsnum = NaN | Inf bool | Fin bool nat int

fun is_double :: "jsnum \<Rightarrow> bool" where
  "is_double (Fin s m e) = (m < 2 ^ 53 \<and> - 1074 \<le> e \<and> e \<le> 971 \<and> (2 ^ 52 \<le> m \<or> e = - 1074))"
| "is_double _ = True"

fun is_finite :: "jsnum \<Rightarrow> bool" where
  "is_finite (Fin s m e) = True"
| "is_finite _ = False"

fun valof :: "jsnum \<Rightarrow> real" where
  "valof (Fin s m e) = (if s then - 1 else 1) * real m * 2 powi e"
| "valof _ = 0"

fun bit_length :: "nat \<Rightarrow> nat" where
  "bit_length n = (if n = 0 then 0 else Suc (bit_length (n div 2)))"

declare bit_length.simps [simp del]

text \<open>
  Dropping the last \<open>sh\<close> bits of a mantissa, to nearest, a tie to the even neighbour.
\<close>

definition round_mantissa :: "nat \<Rightarrow> nat \<Rightarrow> nat" where
  "round_mantissa m sh =
     (if sh = 0 then m
      else if 2 ^ (sh - 1) < m mod 2 ^ sh \<or> (m mod 2 ^ sh = 2 ^ (sh - 1) \<and> odd (m div 2 ^ sh))
        then m div 2 ^ sh + 1
        else m div 2 ^ sh)"

text \<open>
  \<open>rne s m e\<close> is the double nearest to \<open>(-1)^s * m * 2^e\<close> (round to nearest, ties to
  even, the one rounding mode of JavaScript): \<open>quantum m e\<close> is the exponent of the last
  bit that the result keeps, the mantissa is scaled or rounded to it, a mantissa that
  rounds up to \<open>2^53\<close> moves to the next exponent, and past the largest exponent the
  result is an infinity.
\<close>

definition quantum :: "nat \<Rightarrow> int \<Rightarrow> int" where
  "quantum m e = max (e + int (bit_length m) - 53) (- 1074)"

definition scaled_mantissa :: "nat \<Rightarrow> int \<Rightarrow> nat" where
  "scaled_mantissa m e =
     (if quantum m e \<le> e then m * 2 ^ nat (e - quantum m e)
      else round_mantissa m (nat (quantum m e - e)))"

definition pack :: "bool \<Rightarrow> nat \<Rightarrow> int \<Rightarrow> jsnum" where
  "pack s M q =
     (if M = 2 ^ 53 then (if 971 < q + 1 then Inf s else Fin s (2 ^ 52) (q + 1))
      else if 971 < q then Inf s else Fin s M q)"

definition rne :: "bool \<Rightarrow> nat \<Rightarrow> int \<Rightarrow> jsnum" where
  "rne s m e =
     (if m = 0 then Fin s 0 (- 1074)
      else pack s (scaled_mantissa m e) (quantum m e))"

text \<open>The product \<open>a * b\<close> of two numbers (ECMAScript \<open>Number::multiply\<close>).\<close>

fun fmul :: "jsnum \<Rightarrow> jsnum \<Rightarrow> jsnum" where
  "fmul NaN b = NaN"
| "fmul (Inf s) NaN = NaN"
| "fmul (Fin s m e) NaN = NaN"
| "fmul (Inf s) (Inf t) = Inf (s \<noteq> t)"
| "fmul (Inf s) (Fin t n f) = (if n = 0 then NaN else Inf (s \<noteq> t))"
| "fmul (Fin s m e) (Inf t) = (if m = 0 then NaN else Inf (s \<noteq> t))"
| "fmul (Fin s m e) (Fin t n f) = rne (s \<noteq> t) (m * n) (e + f)"

text \<open>
  \<open>Math.round\<close>: a value that is not finite, or is integral, is returned as it is;
  otherwise the nearest integer, the one closer to plus infinity at a tie, which is
  \<open>floor (x + 1/2)\<close>; a result of zero keeps the sign of the argument.
\<close>

definition round_half_up :: "bool \<Rightarrow> nat \<Rightarrow> nat \<Rightarrow> int" where
  "round_half_up s m k = ((if s then - 2 * int m else 2 * int m) + 2 ^ k) div 2 ^ Suc k"

fun Math_round :: "jsnum \<Rightarrow> jsnum" where
  "Math_round NaN = NaN"
| "Math_round (Inf s) = Inf s"
| "Math_round (Fin s m e) =
     (if 0 \<le> e then Fin s m e
      else rne s (nat \<bar>round_half_up s m (nat (- e))\<bar>) 0)"

text \<open>
  Number literals: \<open>js_int i\<close> is the number written as the integer \<open>i\<close>, and
  \<open>js_ratio n d\<close> the number written as the decimal fraction \<open>n / d\<close>
  (\<open>800.4\<close> is \<open>js_ratio 8004 10\<close>): the quotient is computed to more than 64 bits,
  with one more bit that records whether anything was left over, and rounded once.
\<close>

definition js_int :: "int \<Rightarrow> jsnum" where
  "js_int i = rne (i < 0) (nat \<bar>i\<bar>) 0"

definition js_ratio :: "nat \<Rightarrow> nat \<Rightarrow> jsnum" where
  "js_ratio n d =
     rne False
       (2 * (n * 2 ^ (64 + bit_length d) div d)
          + (if n * 2 ^ (64 + bit_length d) mod d = 0 then 0 else 1))
       (- int (64 + bit_length d) - 1)"

section \<open>Values\<close>

record Point =
  pt_x :: jsnum
  pt_y :: jsnum

record Rect =
  rect_x :: jsnum
  rect_y :: jsnum
  rect_width :: jsnum
  rect_height :: jsnum

text \<open>
  Modelled from the spec: the rectangle type is not part of the sources at hand; a
  rectangle is an immutable value whose top-left point is its position and whose size
  is its width and height.
\<close>

definition getTopLeft :: "Rect \<Rightarrow> Point" where
  "getTopLeft r = \<lparr>pt_x = rect_x r, pt_y = rect_y r\<rparr>"

definition getSize :: "Rect \<Rightarrow> Point" where
  "getSize r = \<lparr>pt_x = rect_width r, pt_y = rect_height r\<rparr>"

text \<open>
  Modelled from the spec: the viewport is an external collaborator, consumed through
  three capabilities. Its pan and zoom state is whatever these functions close over.
\<close>

record Viewport =
  pixelFromPointNoRotate :: "Point \<Rightarrow> bool \<Rightarrow> Point"
  deltaPixelsFromPointsNoRotate :: "Point \<Rightarrow> bool \<Rightarrow> Point"
  getContainerSize :: Point

text \<open>The drawing surface and its parent, as far as the constructor touches them.\<close>

record Canvas =
  tagName :: string
  canvas_width :: "jsnum option"
  canvas_height :: "jsnum option"
  style_width :: string
  style_height :: string
  style_position :: string
  style_rest :: "string list"

record Element =
  elem_id :: nat
  elem_dir :: string
  style_textAlign :: string
  children :: "Canvas list"

text \<open>
  The values an argument or a property can hold. \<open>JObject plain props\<close> is an object
  with the own properties \<open>props\<close>; \<open>plain\<close> says whether it is a plain object (an
  object literal) or an instance of some class. Viewports, elements, canvases,
  rectangles and points are objects of their own kind; none of them has one of the properties that
  the constructor reads from its arguments.
\<close>

datatype jsval =
    JUndefined
  | JNull
  | JBool bool
  | JNum jsnum
  | JStr string
  | JArray "jsval list"
  | JObject bool "(string \<times> jsval) list"
  | JViewport Viewport
  | JElement Element
  | JRect Rect
  | JPoint Point
  | JCanvas Canvas

datatype error =
    TypeError
  | AssertionError string
  | Thrown string

fun truthy :: "jsval \<Rightarrow> bool" where
  "truthy JUndefined = False"
| "truthy JNull = False"
| "truthy (JBool b) = b"
| "truthy (JNum NaN) = False"
| "truthy (JNum (Inf s)) = True"
| "truthy (JNum (Fin s m e)) = (m \<noteq> 0)"
| "truthy (JStr s) = (s \<noteq> [])"
| "truthy (JArray xs) = True"
| "truthy (JObject plain props) = True"
| "truthy (JViewport v) = True"
| "truthy (JElement el) = True"
| "truthy (JRect r) = True"
| "truthy (JPoint p) = True"
| "truthy (JCanvas c) = True"

fun typeof_string :: "jsval \<Rightarrow> bool" where
  "typeof_string (JStr s) = True"
| "typeof_string _ = False"

text \<open>\<open>a || b\<close> and \<open>a && b\<close> return one of their operands.\<close>

definition js_or :: "jsval \<Rightarrow> jsval \<Rightarrow> jsval" where
  "js_or a b = (if truthy a then a else b)"

definition js_and :: "jsval \<Rightarrow> jsval \<Rightarrow> jsval" where
  "js_and a b = (if truthy a then b else a)"

text \<open>
  Reading a property: of \<open>undefined\<close> and \<open>null\<close> it throws a TypeError; a property
  that is not there reads as \<open>undefined\<close>.
\<close>

fun getProp :: "jsval \<Rightarrow> string \<Rightarrow> error + jsval" where
  "getProp JUndefined k = Inl TypeError"
| "getProp JNull k = Inl TypeError"
| "getProp (JObject plain props) k =
     (case map_of props k of None \<Rightarrow> Inr JUndefined | Some v \<Rightarrow> Inr v)"
| "getProp v k = Inr JUndefined"

definition readProp :: "jsval \<Rightarrow> string \<Rightarrow> jsval" where
  "readProp v k = (case getProp v k of Inl e \<Rightarrow> JUndefined | Inr w \<Rightarrow> w)"

fun arg :: "jsval list \<Rightarrow> nat \<Rightarrow> jsval" where
  "arg [] i = JUndefined"
| "arg (a # rest) 0 = a"
| "arg (a # rest) (Suc i) = arg rest i"

fun isPlainObject :: "jsval \<Rightarrow> bool" where
  "isPlainObject (JObject plain props) = plain"
| "isPlainObject _ = False"

section \<open>The library namespace\<close>

text \<open>
  What the drawer reads from the library object \<open>$\<close>. The helpers are defined in
  other files of the library and are parameters here; \<open>setElementStyles\<close> stands for
  the three calls that set the opacity, the pointer events and the touch action of
  the canvas.
\<close>

record osd =
  pixelDensityRatio :: jsnum
  supportsCanvas :: jsval
  DEFAULT_SETTINGS_debugGridColor :: jsval
  getElement :: "jsval \<Rightarrow> jsval"
  makeNeutralElement :: "string \<Rightarrow> Canvas"
  setElementStyles :: "Canvas \<Rightarrow> Canvas"

text \<open>
  Modelled from the spec: \<open>$.console\<close> is defined outside the sources at hand. The
  spec has a failed assertion fail fast with an assertion-style error, so
  \<open>console_assert\<close> raises when its condition does not hold.
\<close>

definition console_assert :: "bool \<Rightarrow> string \<Rightarrow> error + unit" where
  "console_assert c msg = (if c then Inr () else Inl (AssertionError msg))"

section \<open>The drawer\<close>

datatype apiop = Draw | CanRotate | Destroy | Clear | SetImageSmoothingEnabled

text \<open>
  What the name of an operation resolves to on an instance: \<open>BaseStub op\<close> is the function
  \<open>$.DrawerBase.prototype.op\<close>, \<open>Other n\<close> is any other value, the \<open>n\<close>-th one.
\<close>

datatype member = BaseStub apiop | Other nat

record drawer =
  viewer :: jsval
  viewport :: jsval
  debugGridColor :: jsval
  useCanvas :: jsval
  container :: jsval
  canvas :: Canvas
  element :: jsval
  imageSmoothingEnabled :: bool
  api :: "apiop \<Rightarrow> member"

definition checkForAPIOverrides :: "(apiop \<Rightarrow> member) \<Rightarrow> error + unit" where
  "checkForAPIOverrides this_api =
     (if this_api Draw = BaseStub Draw
        then Inl (Thrown ''[drawer].draw must be implemented by child class'')
      else if this_api CanRotate = BaseStub CanRotate
        then Inl (Thrown ''[drawer].canRotate must be implemented by child class'')
      else if this_api Destroy = BaseStub Destroy
        then Inl (Thrown ''[drawer].destroy must be implemented by child class'')
      else if this_api Clear = BaseStub Clear
        then Inl (Thrown ''[drawer].clear must be implemented by child class'')
      else if this_api SetImageSmoothingEnabled = BaseStub SetImageSmoothingEnabled
        then Inl (Thrown ''[drawer].setImageSmoothingEnabled must be implemented by child class'')
      else Inr ())"

text \<open>
  \<open>_calculateCanvasSize\<close> reads \<open>this.viewport\<close> and the pixel density ratio; calling
  \<open>getContainerSize\<close> on a value that is not a viewport throws a TypeError.
\<close>

fun calculateCanvasSize :: "osd \<Rightarrow> jsval \<Rightarrow> error + Point" where
  "calculateCanvasSize S (JViewport vp) =
     Inr \<lparr>pt_x = Math_round (fmul (pt_x (getContainerSize vp)) (pixelDensityRatio S)),
          pt_y = Math_round (fmul (pt_y (getContainerSize vp)) (pixelDensityRatio S))\<rparr>"
| "calculateCanvasSize S v = Inl TypeError"

text \<open>
  The two transforms, in state-passing style: the state is the library namespace and
  the drawer \<open>this\<close>; the result is the value returned or the error thrown, and the
  state after the call.
\<close>

type_synonym state = "osd \<times> drawer"

definition viewportToDrawerRectangle :: "jsval \<Rightarrow> state \<Rightarrow> (error + Rect) \<times> state" where
  "viewportToDrawerRectangle rectangle st =
     (case (viewport (snd st), rectangle) of
        (JViewport vp, JRect r) \<Rightarrow>
          let topLeft = pixelFromPointNoRotate vp (getTopLeft r) True;
              size = deltaPixelsFromPointsNoRotate vp (getSize r) True
          in (Inr \<lparr>rect_x = fmul (pt_x topLeft) (pixelDensityRatio (fst st)),
                   rect_y = fmul (pt_y topLeft) (pixelDensityRatio (fst st)),
                   rect_width = fmul (pt_x size) (pixelDensityRatio (fst st)),
                   rect_height = fmul (pt_y size) (pixelDensityRatio (fst st))\<rparr>, st)
      | _ \<Rightarrow> (Inl TypeError, st))"

definition viewportCoordToDrawerCoord :: "jsval \<Rightarrow> state \<Rightarrow> (error + Point) \<times> state" where
  "viewportCoordToDrawerCoord point st =
     (case (viewport (snd st), point) of
        (JViewport vp, JPoint p) \<Rightarrow>
          let vpPoint = pixelFromPointNoRotate vp p True
          in (Inr \<lparr>pt_x = fmul (pt_x vpPoint) (pixelDensityRatio (fst st)),
                   pt_y = fmul (pt_y vpPoint) (pixelDensityRatio (fst st))\<rparr>, st)
      | _ \<Rightarrow> (Inl TypeError, st))"

text \<open>
  The two transforms once more, with the calls that they make out of this file as
  parameters. The accessors of the rectangle and the projections of the viewport are
  defined elsewhere; here each of them is a transformer of the whole mutable world
  \<open>'w\<close>, which holds the viewport, the library namespace, the drawer and whatever else
  there is: it returns a point or throws, and it may write. \<open>vp_pixelFromPointNoRotate\<close>
  is the call \<open>this.viewport.pixelFromPointNoRotate\<close>, and \<open>get_pixelDensityRatio\<close> is
  the read of \<open>$.pixelDensityRatio\<close>. What a transform returns is a new rectangle or
  point, made of the numbers that the calls have returned.
\<close>

record 'w calls =
  rect_getTopLeft :: "Rect \<Rightarrow> 'w \<Rightarrow> (error + Point) \<times> 'w"
  rect_getSize :: "Rect \<Rightarrow> 'w \<Rightarrow> (error + Point) \<times> 'w"
  vp_pixelFromPointNoRotate :: "Point \<Rightarrow> bool \<Rightarrow> 'w \<Rightarrow> (error + Point) \<times> 'w"
  vp_deltaPixelsFromPointsNoRotate :: "Point \<Rightarrow> bool \<Rightarrow> 'w \<Rightarrow> (error + Point) \<times> 'w"
  get_pixelDensityRatio :: "'w \<Rightarrow> jsnum"

text \<open>
  One call after another: what the first call throws ends the run in the world that
  the call has left, and what it returns goes to the rest of the run.
\<close>

definition and_then ::
  "('w \<Rightarrow> (error + 'a) \<times> 'w) \<Rightarrow> ('a \<Rightarrow> 'w \<Rightarrow> (error + 'b) \<times> 'w) \<Rightarrow> 'w \<Rightarrow> (error + 'b) \<times> 'w" where
  "and_then c k w = (case c w of (Inl e, w') \<Rightarrow> (Inl e, w') | (Inr x, w') \<Rightarrow> k x w')"

text \<open>
  The calls run in the order of the source, the argument of a projection before the
  projection, and the density ratio is read after the last of them.
\<close>

definition viewportToDrawerRectangle_eff :: "'w calls \<Rightarrow> Rect \<Rightarrow> 'w \<Rightarrow> (error + Rect) \<times> 'w" where
  "viewportToDrawerRectangle_eff E rectangle =
     and_then (rect_getTopLeft E rectangle) (\<lambda>corner.
     and_then (vp_pixelFromPointNoRotate E corner True) (\<lambda>topLeft.
     and_then (rect_getSize E rectangle) (\<lambda>extent.
     and_then (vp_deltaPixelsFromPointsNoRotate E extent True) (\<lambda>size w.
       (Inr \<lparr>rect_x = fmul (pt_x topLeft) (get_pixelDensityRatio E w),
             rect_y = fmul (pt_y topLeft) (get_pixelDensityRatio E w),
             rect_width = fmul (pt_x size) (get_pixelDensityRatio E w),
             rect_height = fmul (pt_y size) (get_pixelDensityRatio E w)\<rparr>, w)))))"

definition viewportCoordToDrawerCoord_eff :: "'w calls \<Rightarrow> Point \<Rightarrow> 'w \<Rightarrow> (error + Point) \<times> 'w" where
  "viewportCoordToDrawerCoord_eff E point =
     and_then (vp_pixelFromPointNoRotate E point True) (\<lambda>vpPoint w.
       (Inr \<lparr>pt_x = fmul (pt_x vpPoint) (get_pixelDensityRatio E w),
             pt_y = fmul (pt_y vpPoint) (get_pixelDensityRatio E w)\<rparr>, w))"

text \<open>
  What can be asked of the calls, for a view \<open>obs\<close> of the world: a call leaves the view
  alone when the view is the same after the call as before it, and it answers from the
  view when it returns or throws the same in two worlds that the view does not tell
  apart. The calls \<open>E\<close> are read-only on \<open>obs\<close> when each of them does both and the
  density ratio can be read off the view. With the identity as the view this says that
  no call writes anything.
\<close>

definition leaves_alone :: "('w \<Rightarrow> 'a) \<Rightarrow> ('w \<Rightarrow> 'b \<times> 'w) \<Rightarrow> bool" where
  "leaves_alone obs c = (\<forall>w. obs (snd (c w)) = obs w)"

definition answers_from :: "('w \<Rightarrow> 'a) \<Rightarrow> ('w \<Rightarrow> 'b \<times> 'w) \<Rightarrow> bool" where
  "answers_from obs c = (\<forall>w w'. obs w = obs w' \<longrightarrow> fst (c w) = fst (c w'))"

definition read_only :: "('w \<Rightarrow> 'a) \<Rightarrow> 'w calls \<Rightarrow> bool" where
  "read_only obs E =
     ((\<forall>r. leaves_alone obs (rect_getTopLeft E r) \<and> answers_from obs (rect_getTopLeft E r))
      \<and> (\<forall>r. leaves_alone obs (rect_getSize E r) \<and> answers_from obs (rect_getSize E r))
      \<and> (\<forall>p b. leaves_alone obs (vp_pixelFromPointNoRotate E p b)
                \<and> answers_from obs (vp_pixelFromPointNoRotate E p b))
      \<and> (\<forall>p b. leaves_alone obs (vp_deltaPixelsFromPointsNoRotate E p b)
                \<and> answers_from obs (vp_deltaPixelsFromPointsNoRotate E p b))
      \<and> (\<forall>w w'. obs w = obs w' \<longrightarrow> get_pixelDensityRatio E w = get_pixelDensityRatio E w'))"

section \<open>The constructor\<close>

text \<open>
  Lines 52 to 60: a first argument that is not a plain object means positional
  arguments, which are put into an options object.
\<close>

definition normalizeOptions :: "jsval list \<Rightarrow> jsval" where
  "normalizeOptions args =
     (if \<not> isPlainObject (arg args 0)
      then JObject True
             [(''source'', arg args 0), (''viewport'', arg args 1), (''element'', arg args 2)]
      else arg args 0)"

text \<open>Line 71.\<close>

definition normalizeDebugGridColor :: "osd \<Rightarrow> jsval \<Rightarrow> jsval" where
  "normalizeDebugGridColor S c =
     (if typeof_string c then JArray [c] else js_or c (DEFAULT_SETTINGS_debugGridColor S))"

text \<open>Lines 106 to 120: sizing and styling the canvas.\<close>

definition setupCanvas :: "osd \<Rightarrow> jsval \<Rightarrow> jsval \<Rightarrow> error + Canvas" where
  "setupCanvas S this_useCanvas this_viewport =
     (case (if truthy this_useCanvas
            then (case calculateCanvasSize S this_viewport of
                    Inl e \<Rightarrow> Inl e
                  | Inr viewportSize \<Rightarrow>
                      Inr ((makeNeutralElement S ''canvas'')
                             \<lparr>canvas_width := Some (pt_x viewportSize),
                              canvas_height := Some (pt_y viewportSize)\<rparr>))
            else Inr (makeNeutralElement S ''div'')) of
        Inl e \<Rightarrow> Inl e
      | Inr c \<Rightarrow>
          Inr (setElementStyles S
                 (c\<lparr>style_width := ''100%'', style_height := ''100%'',
                    style_position := ''absolute''\<rparr>)))"

text \<open>
  Lines 62 to 130, on the options object. The second component of the result is what
  was written with \<open>$.console.error\<close>. A container that is not an element makes the
  constructor throw a TypeError: at line 104 when it is \<open>undefined\<close> or \<open>null\<close>, and
  at line 123 or 124 otherwise, unless the canvas has already thrown one.
\<close>

definition construct :: "osd \<Rightarrow> (apiop \<Rightarrow> member) \<Rightarrow> jsval \<Rightarrow> error + drawer \<times> string list" where
  "construct S this_api options =
     (case console_assert (truthy (readProp options ''viewport''))
             ''[Drawer] options.viewport is required'' of
        Inl e \<Rightarrow> Inl e
      | Inr u \<Rightarrow>
     (case console_assert (truthy (readProp options ''element''))
             ''[Drawer] options.element is required'' of
        Inl e \<Rightarrow> Inl e
      | Inr u \<Rightarrow>
     (let this_viewer = readProp options ''viewer'';
          this_viewport = readProp options ''viewport'';
          this_useCanvas =
            js_and (supportsCanvas S)
              (if truthy this_viewer then readProp this_viewer ''useCanvas'' else JBool True)
      in case getElement S (readProp options ''element'') of
           JElement el \<Rightarrow>
             (case setupCanvas S this_useCanvas this_viewport of
                Inl e \<Rightarrow> Inl e
              | Inr c \<Rightarrow>
                  (case checkForAPIOverrides this_api of
                     Inl e \<Rightarrow> Inl e
                   | Inr u \<Rightarrow>
                       Inr (\<lparr>viewer = this_viewer,
                             viewport = this_viewport,
                             debugGridColor =
                               normalizeDebugGridColor S (readProp options ''debugGridColor''),
                             useCanvas = this_useCanvas,
                             container =
                               JElement (el\<lparr>elem_dir := ''ltr'', style_textAlign := ''left'',
                                            children := children el @ [c]\<rparr>),
                             canvas = c,
                             element =
                               JElement (el\<lparr>elem_dir := ''ltr'', style_textAlign := ''left'',
                                            children := children el @ [c]\<rparr>),
                             imageSmoothingEnabled = True,
                             api = this_api\<rparr>,
                            (if truthy (readProp options ''source'')
                             then [''[Drawer] options.source is no longer accepted; use TiledImage instead'']
                             else [])
                            @ (if truthy (readProp options ''opacity'')
                               then [''[Drawer] options.opacity is no longer accepted; set the opacity on the TiledImage instead'']
                               else []))))
         | other \<Rightarrow> Inl TypeError)))"

text \<open>
  The constructor, called on a new object whose five operations resolve as
  \<open>this_api\<close> says, with the arguments \<open>args\<close>. Line 48 reads \<open>options.viewer\<close> from
  the first argument as it was passed. The two helpers that the constructor calls on
  \<open>this\<close>, \<open>_calculateCanvasSize\<close> and \<open>_checkForAPIOverrides\<close>, are those of the base
  class.
\<close>

definition DrawerBase :: "osd \<Rightarrow> (apiop \<Rightarrow> member) \<Rightarrow> jsval list \<Rightarrow> error + drawer \<times> string list" where
  "DrawerBase S this_api args =
     (case getProp (arg args 0) ''viewer'' of
        Inl e \<Rightarrow> Inl e
      | Inr v \<Rightarrow>
          (case console_assert (truthy v) ''[Drawer] options.viewer is required'' of
             Inl e \<Rightarrow> Inl e
           | Inr u \<Rightarrow> construct S this_api (normalizeOptions args)))"

section \<open>The capability marker\<close>

text \<open>
  \<open>isOpenSeadragonDrawer\<close> is an accessor property of the prototype, with a getter
  that returns \<open>true\<close> and no setter. The own properties of an instance are those
  the constructor assigns. Reading a property finds an own property first and the
  inherited accessor after it; an assignment \<open>o.k = v\<close> changes or adds an own
  property, except that it is rejected, and changes nothing, when \<open>k\<close> is not an own
  property and is inherited as an accessor without a setter.
\<close>

definition own_properties :: "drawer \<Rightarrow> (string \<times> jsval) list" where
  "own_properties d =
     [(''viewer'', viewer d), (''viewport'', viewport d),
      (''debugGridColor'', debugGridColor d), (''useCanvas'', useCanvas d),
      (''container'', container d), (''canvas'', JCanvas (canvas d)),
      (''element'', element d),
      (''_imageSmoothingEnabled'', JBool (imageSmoothingEnabled d))]"

definition getter_only :: "string \<Rightarrow> jsval option" where
  "getter_only k = (if k = ''isOpenSeadragonDrawer'' then Some (JBool True) else None)"

definition assign :: "(string \<times> jsval) list \<Rightarrow> string \<times> jsval \<Rightarrow> (string \<times> jsval) list" where
  "assign own kv =
     (if map_of own (fst kv) = None \<and> getter_only (fst kv) \<noteq> None then own
      else kv # filter (\<lambda>p. fst p \<noteq> fst kv) own)"

definition isOpenSeadragonDrawer :: "(string \<times> jsval) list \<Rightarrow> jsval" where
  "isOpenSeadragonDrawer own =
     (case map_of own ''isOpenSeadragonDrawer'' of
        Some v \<Rightarrow> v
      | None \<Rightarrow> (case getter_only ''isOpenSeadragonDrawer'' of Some v \<Rightarrow> v | None \<Rightarrow> JUndefined))"

section \<open>A small installation\<close>

text \<open>
  A viewport that projects every point to itself in a container of 800.4 by 600.6
  logical pixels, one parent element, a display of density 2, and a backend class
  that overrides all five operations.
\<close>

definition unit_viewport :: Viewport where
  "unit_viewport =
     \<lparr>pixelFromPointNoRotate = (\<lambda>p current. p),
      deltaPixelsFromPointsNoRotate = (\<lambda>p current. p),
      getContainerSize = \<lparr>pt_x = js_ratio 8004 10, pt_y = js_ratio 6006 10\<rparr>\<rparr>"

definition parent_element :: Element where
  "parent_element = \<lparr>elem_id = 1, elem_dir = [], style_textAlign = [], children = []\<rparr>"

definition neutral_element :: "string \<Rightarrow> Canvas" where
  "neutral_element t =
     \<lparr>tagName = t, canvas_width = None, canvas_height = None, style_width = [],
      style_height = [], style_position = [], style_rest = []\<rparr>"

definition retina :: osd where
  "retina =
     \<lparr>pixelDensityRatio = js_int 2,
      supportsCanvas = JBool True,
      DEFAULT_SETTINGS_debugGridColor = JArray [JStr ''#437AB2''],
      getElement = (\<lambda>v. v),
      makeNeutralElement = neutral_element,
      setElementStyles = (\<lambda>c. c\<lparr>style_rest := [''opacity'', ''pointer-events'', ''touch-action'']\<rparr>)\<rparr>"

definition complete_api :: "apiop \<Rightarrow> member" where
  "complete_api op = Other 0"

definition some_viewer :: jsval where
  "some_viewer = JObject False [(''useCanvas'', JBool True)]"

definition good_options :: jsval where
  "good_options =
     JObject True
       [(''viewer'', some_viewer), (''viewport'', JViewport unit_viewport),
        (''element'', JElement parent_element)]"

text \<open>
  The five required operations in the order in which they are checked, their names,
  and the message that names one of them.
\<close>

definition required_ops :: "apiop list" where
  "required_ops = [Draw, CanRotate, Destroy, Clear, SetImageSmoothingEnabled]"

fun op_name :: "apiop \<Rightarrow> string" where
  "op_name Draw = ''draw''"
| "op_name CanRotate = ''canRotate''"
| "op_name Destroy = ''destroy''"
| "op_name Clear = ''clear''"
| "op_name SetImageSmoothingEnabled = ''setImageSmoothingEnabled''"

definition override_message :: "apiop \<Rightarrow> string" where
  "override_message op = ''[drawer].'' @ op_name op @ '' must be implemented by child class''"

definition first_missing :: "(apiop \<Rightarrow> member) \<Rightarrow> apiop option" where
  "first_missing this_api = find (\<lambda>op. this_api op = BaseStub op) required_ops"

definition api_without :: "apiop \<Rightarrow> apiop \<Rightarrow> member" where
  "api_without missing op = (if op = missing then BaseStub op else Other 0)"

text \<open>
  Positional arguments whose first one, the tile source, happens to have a property
  \<open>viewer\<close>; and options whose grid colour is the empty string.
\<close>

definition some_source :: jsval where
  "some_source = JObject False [(''viewer'', JBool True)]"

definition legacy_args :: "jsval list" where
  "legacy_args = [some_source, JViewport unit_viewport, JElement parent_element]"

definition options_with_color :: "jsval \<Rightarrow> jsval" where
  "options_with_color c =
     JObject True
       [(''viewer'', some_viewer), (''viewport'', JViewport unit_viewport),
        (''element'', JElement parent_element), (''debugGridColor'', c)]"

text \<open>The instance that the small installation builds from \<open>good_options\<close>.\<close>

definition sized_canvas :: Canvas where
  "sized_canvas =
     \<lparr>tagName = ''canvas'', canvas_width = Some (js_int 1601),
      canvas_height = Some (js_int 1201), style_width = ''100%'', style_height = ''100%'',
      style_position = ''absolute'',
      style_rest = [''opacity'', ''pointer-events'', ''touch-action'']\<rparr>"

definition filled_element :: Element where
  "filled_element =
     \<lparr>elem_id = 1, elem_dir = ''ltr'', style_textAlign = ''left'', children = [sized_canvas]\<rparr>"

definition good_drawer :: drawer where
  "good_drawer =
     \<lparr>viewer = some_viewer, viewport = JViewport unit_viewport,
      debugGridColor = JArray [JStr ''#437AB2''], useCanvas = JBool True,
      container = JElement filled_element, canvas = sized_canvas,
      element = JElement filled_element, imageSmoothingEnabled = True,
      api = complete_api\<rparr>"

text \<open>
  The state in which the transforms run in the small installation, a rectangle with
  fractional coordinates, and a rectangle and a point with coordinates that are not
  finite.
\<close>

definition retina_state :: state where
  "retina_state = (retina, good_drawer)"

definition fractional_rect :: Rect where
  "fractional_rect =
     \<lparr>rect_x = js_ratio 5 10, rect_y = js_ratio 25 100, rect_width = js_ratio 15 10,
      rect_height = js_ratio 3 10\<rparr>"

definition degenerate_rect :: Rect where
  "degenerate_rect =
     \<lparr>rect_x = NaN, rect_y = Inf False, rect_width = Inf True, rect_height = js_int 0\<rparr>"

definition degenerate_point :: Point where
  "degenerate_point = \<lparr>pt_x = Inf True, pt_y = NaN\<rparr>"

text \<open>
  A state in which the density and the container size are not finite.
\<close>

definition degenerate_viewport :: Viewport where
  "degenerate_viewport = unit_viewport\<lparr>getContainerSize := \<lparr>pt_x = NaN, pt_y = Inf False\<rparr>\<rparr>"

definition degenerate_state :: state where
  "degenerate_state =
     (retina\<lparr>pixelDensityRatio := Inf True\<rparr>,
      good_drawer\<lparr>viewport := JViewport degenerate_viewport\<rparr>)"

text \<open>The instance built from positional arguments.\<close>

definition legacy_drawer :: drawer where
  "legacy_drawer = good_drawer\<lparr>viewer := JUndefined\<rparr>"

text \<open>
  Two conditions on the numbers that meet in a product. The product of two finite
  numbers is in the normal range when it is zero or when its exact value, before
  rounding, is at least \<open>2^-1022\<close> in magnitude: the exact product is
  \<open>m * n * 2^(e + f)\<close>, and it has \<open>bit_length (m * n)\<close> bits. A number doubles
  without overflow when twice a finite number is finite.
\<close>

fun product_in_normal_range :: "jsnum \<Rightarrow> jsnum \<Rightarrow> bool" where
  "product_in_normal_range (Fin s m e) (Fin t n f) =
     (m * n = 0 \<or> - 1074 \<le> e + f + int (bit_length (m * n)) - 53)"
| "product_in_normal_range a b = True"

definition doubles_without_overflow :: "jsnum \<Rightarrow> bool" where
  "doubles_without_overflow d = (is_finite d \<longrightarrow> is_finite (fmul (js_int 2) d))"

text \<open>
  A rectangle whose left edge is the smallest positive number, \<open>5e-324\<close>, and the
  rectangles that the small installation returns for \<open>fractional_rect\<close> at the
  densities 2 and 4.
\<close>

definition tiny_rect :: Rect where
  "tiny_rect =
     \<lparr>rect_x = Fin False 1 (- 1074), rect_y = js_int 0, rect_width = js_int 1,
      rect_height = js_int 1\<rparr>"

definition fractional_rect_at_2 :: Rect where
  "fractional_rect_at_2 =
     \<lparr>rect_x = js_int 1, rect_y = js_ratio 5 10, rect_width = js_int 3,
      rect_height = js_ratio 6 10\<rparr>"

definition fractional_rect_at_4 :: Rect where
  "fractional_rect_at_4 =
     \<lparr>rect_x = js_int 2, rect_y = js_int 1, rect_width = js_int 6,
      rect_height = js_ratio 12 10\<rparr>"

text \<open>
  Two sets of calls. The first is the one of the state-passing transforms above: the
  world is the library namespace and the drawer, and no call writes. In the second
  the viewport counts the projections it is asked for, in a counter of its own that
  is the first component of the world.
\<close>

definition pure_calls :: "state calls" where
  "pure_calls =
     \<lparr>rect_getTopLeft = (\<lambda>r w. (Inr (getTopLeft r), w)),
      rect_getSize = (\<lambda>r w. (Inr (getSize r), w)),
      vp_pixelFromPointNoRotate = (\<lambda>p current w.
         case viewport (snd w) of
           JViewport vp \<Rightarrow> (Inr (pixelFromPointNoRotate vp p current), w)
         | other \<Rightarrow> (Inl TypeError, w)),
      vp_deltaPixelsFromPointsNoRotate = (\<lambda>p current w.
         case viewport (snd w) of
           JViewport vp \<Rightarrow> (Inr (deltaPixelsFromPointsNoRotate vp p current), w)
         | other \<Rightarrow> (Inl TypeError, w)),
      get_pixelDensityRatio = (\<lambda>w. pixelDensityRatio (fst w))\<rparr>"

definition counting_calls :: "(nat \<times> state) calls" where
  "counting_calls =
     \<lparr>rect_getTopLeft = (\<lambda>r w. (Inr (getTopLeft r), w)),
      rect_getSize = (\<lambda>r w. (Inr (getSize r), w)),
      vp_pixelFromPointNoRotate = (\<lambda>p current w.
         (fst (vp_pixelFromPointNoRotate pure_calls p current (snd w)), (Suc (fst w), snd w))),
      vp_deltaPixelsFromPointsNoRotate = (\<lambda>p current w.
         (fst (vp_deltaPixelsFromPointsNoRotate pure_calls p current (snd w)), (Suc (fst w), snd w))),
      get_pixelDensityRatio = (\<lambda>w. pixelDensityRatio (fst (snd w)))\<rparr>"

text \<open>
  Positional arguments without a tile source and with an ordinary one, and the options
  object that positional arguments with the tile source \<open>s\<close> are put into.
\<close>

definition sourceless_args :: "jsval list" where
  "sourceless_args = [JNull, JViewport unit_viewport, JElement parent_element]"

definition ordinary_args :: "jsval list" where
  "ordinary_args = [JStr ''tiles.dzi'', JViewport unit_viewport, JElement parent_element]"

definition options_of_source :: "jsval \<Rightarrow> jsval" where
  "options_of_source s =
     JObject True
       [(''source'', s), (''viewport'', JViewport unit_viewport),
        (''element'', JElement parent_element)]"

section \<open>Bit lengths\<close>

lemma bit_length_0 [simp]: "bit_length 0 = 0"
  by (simp add: bit_length.simps)

lemma bit_length_pos: "0 < n \<Longrightarrow> 0 < bit_length n"
  by (subst bit_length.simps) simp

lemma bit_length_eq_0 [simp]: "bit_length n = 0 \<longleftrightarrow> n = 0"
  by (subst bit_length.simps) simp

lemma bit_length_upper: "n < 2 ^ bit_length n"
proof (induction n rule: bit_length.induct)
  case (1 n)
  show ?case
  proof (cases "n = 0")
    case True
    then show ?thesis by simp
  next
    case False
    with 1 have "n div 2 < 2 ^ bit_length (n div 2)" by simp
    then have "n < 2 * 2 ^ bit_length (n div 2)" by linarith
    with False show ?thesis
      by (subst bit_length.simps) simp
  qed
qed

lemma bit_length_lower: "0 < n \<Longrightarrow> 2 ^ (bit_length n - 1) \<le> n"
proof (induction n rule: bit_length.induct)
  case (1 n)
  show ?case
  proof (cases "n div 2 = 0")
    case True
    with 1(2) have "bit_length n = 1"
      by (subst bit_length.simps) simp
    with 1(2) show ?thesis by simp
  next
    case False
    with 1 have "2 ^ (bit_length (n div 2) - 1) \<le> n div 2" by simp
    then have "2 * 2 ^ (bit_length (n div 2) - 1) \<le> n" by linarith
    moreover from False have "0 < bit_length (n div 2)" by (simp add: bit_length_pos)
    then have "2 * (2::nat) ^ (bit_length (n div 2) - 1) = 2 ^ bit_length (n div 2)"
      by (cases "bit_length (n div 2)") simp_all
    moreover from 1(2) have "bit_length n = Suc (bit_length (n div 2))"
      by (subst bit_length.simps) simp
    ultimately show ?thesis by simp
  qed
qed

lemma bit_length_unique:
  assumes "2 ^ k \<le> n" and "n < 2 ^ Suc k"
  shows "bit_length n = Suc k"
proof -
  from assms have pos: "0 < n"
    by (metis less_le_trans zero_less_numeral zero_less_power)
  have "n < 2 ^ bit_length n" by (rule bit_length_upper)
  with assms(1) have "(2::nat) ^ k < 2 ^ bit_length n" by linarith
  then have 1: "k < bit_length n" by simp
  from pos have "2 ^ (bit_length n - 1) \<le> n" by (rule bit_length_lower)
  with assms(2) have "(2::nat) ^ (bit_length n - 1) < 2 ^ Suc k" by linarith
  then have "bit_length n - 1 < Suc k"
    by (rule power_less_imp_less_exp [rotated]) simp
  with 1 show ?thesis by linarith
qed

lemma bit_length_mult_pow2:
  assumes "0 < n"
  shows "bit_length (n * 2 ^ j) = bit_length n + j"
proof -
  from assms have b: "0 < bit_length n" by (rule bit_length_pos)
  have "2 ^ (bit_length n - 1) * 2 ^ j \<le> n * 2 ^ j"
    using bit_length_lower [OF assms] by simp
  then have 1: "2 ^ (bit_length n + j - 1) \<le> n * 2 ^ j"
    using b by (simp add: power_add [symmetric])
  have "n * 2 ^ j < 2 ^ bit_length n * 2 ^ j"
    using bit_length_upper [of n] by simp
  then have 2: "n * 2 ^ j < 2 ^ Suc (bit_length n + j - 1)"
    using b by (simp add: power_add [symmetric])
  from bit_length_unique [OF 1 2] b show ?thesis by simp
qed

lemma bit_length_le: "n < 2 ^ k \<Longrightarrow> bit_length n \<le> k"
proof (cases "n = 0")
  case True
  then show ?thesis by simp
next
  case False
  assume "n < 2 ^ k"
  moreover from False have "2 ^ (bit_length n - 1) \<le> n" using bit_length_lower [of n] by simp
  ultimately have "(2::nat) ^ (bit_length n - 1) < 2 ^ k" by linarith
  then have "bit_length n - 1 < k"
    by (rule power_less_imp_less_exp [rotated]) simp
  then show ?thesis by linarith
qed

section \<open>Rounding\<close>

lemma round_mantissa_shift:
  assumes "0 < sh"
  shows "round_mantissa (m * 2 ^ j) (sh + j) = round_mantissa m sh"
proof -
  have d: "m * 2 ^ j div 2 ^ (sh + j) = m div 2 ^ sh"
    by (simp add: power_add)
  have r: "m * 2 ^ j mod 2 ^ (sh + j) = (m mod 2 ^ sh) * 2 ^ j"
    by (simp add: power_add mod_mult_mult2)
  from assms have h: "(2::nat) ^ (sh + j - 1) = 2 ^ (sh - 1) * 2 ^ j"
    by (simp add: power_add [symmetric])
  from assms show ?thesis
    unfolding round_mantissa_def d r h by simp
qed

lemma round_mantissa_exact:
  assumes "d \<le> j"
  shows "round_mantissa (m * 2 ^ j) d = m * 2 ^ (j - d)"
proof (cases "d = 0")
  case True
  then show ?thesis by (simp add: round_mantissa_def)
next
  case False
  from assms have p: "(2::nat) ^ j = 2 ^ (j - d) * 2 ^ d"
    by (simp add: power_add [symmetric])
  have r: "m * 2 ^ j mod 2 ^ d = 0"
    unfolding p by simp
  have q: "m * 2 ^ j div 2 ^ d = m * 2 ^ (j - d)"
    unfolding p by simp
  from False show ?thesis
    unfolding round_mantissa_def r q by simp
qed

lemma round_mantissa_le: "round_mantissa m sh \<le> m div 2 ^ sh + 1"
  by (simp add: round_mantissa_def)

lemma quantum_shift:
  "0 < m \<Longrightarrow> quantum (m * 2 ^ j) (e - int j) = quantum m e"
  by (simp add: quantum_def bit_length_mult_pow2)

lemma scaled_mantissa_shift:
  assumes "0 < m"
  shows "scaled_mantissa (m * 2 ^ j) (e - int j) = scaled_mantissa m e"
proof -
  let ?q = "quantum m e"
  note qs = quantum_shift [OF assms, of j e]
  consider "?q \<le> e - int j" | "e - int j < ?q" "?q \<le> e" | "e < ?q"
    by linarith
  then show ?thesis
  proof cases
    case 1
    then have "nat (e - ?q) = j + nat (e - int j - ?q)" by linarith
    with 1 show ?thesis
      by (simp add: scaled_mantissa_def qs power_add)
  next
    case 2
    then have d: "nat (?q - (e - int j)) \<le> j" and "j - nat (?q - (e - int j)) = nat (e - ?q)"
      by linarith+
    with 2 show ?thesis
      by (simp add: scaled_mantissa_def qs round_mantissa_exact)
  next
    case 3
    then have "nat (?q - (e - int j)) = nat (?q - e) + j" and "0 < nat (?q - e)"
      by linarith+
    with 3 show ?thesis
      by (simp add: scaled_mantissa_def qs round_mantissa_shift)
  qed
qed

lemma rne_shift: "rne s (m * 2 ^ j) (e - int j) = rne s m e"
  by (cases "m = 0") (simp_all add: rne_def quantum_shift scaled_mantissa_shift)

lemma rne_normal:
  assumes "2 ^ 52 \<le> M" and "M < 2 ^ 53" and "- 1074 \<le> q"
  shows "rne s M q = (if 971 < q then Inf s else Fin s M q)"
proof -
  from assms have b: "bit_length M = 53"
    using bit_length_unique [of 52 M] by simp
  with assms have "quantum M q = q"
    by (simp add: quantum_def)
  then have "scaled_mantissa M q = M"
    by (simp add: scaled_mantissa_def)
  with \<open>quantum M q = q\<close> assms show ?thesis
    by (auto simp: rne_def pack_def)
qed

lemma rne_double_id:
  assumes "is_double (Fin s m e)"
  shows "rne s m e = Fin s m e"
proof (cases "2 ^ 52 \<le> m")
  case True
  with assms show ?thesis
    by (simp add: rne_normal)
next
  case False
  with assms have e: "e = - 1074" and m: "m < 2 ^ 52"
    by simp_all
  show ?thesis
  proof (cases "m = 0")
    case True
    with e show ?thesis by (simp add: rne_def)
  next
    case False
    from m have "bit_length m \<le> 52" by (rule bit_length_le)
    with e have q: "quantum m e = - 1074"
      by (simp add: quantum_def)
    with e have "scaled_mantissa m e = m"
      by (simp add: scaled_mantissa_def)
    with q e m False show ?thesis
      by (simp add: rne_def pack_def)
  qed
qed

lemma scaled_mantissa_normal:
  assumes "0 < m" and "- 1074 \<le> e + int (bit_length m) - 53"
  shows "2 ^ 52 \<le> scaled_mantissa m e \<and> scaled_mantissa m e \<le> 2 ^ 53"
proof -
  let ?b = "bit_length m"
  from assms have q: "quantum m e = e + int ?b - 53"
    by (simp add: quantum_def)
  from assms(1) have b: "0 < ?b" by (rule bit_length_pos)
  have lo: "2 ^ (?b - 1) \<le> m" using assms(1) by (rule bit_length_lower)
  have hi: "m < 2 ^ ?b" by (rule bit_length_upper)
  show ?thesis
  proof (cases "?b \<le> 53")
    case True
    then have s: "scaled_mantissa m e = m * 2 ^ (53 - ?b)"
      using q by (simp add: scaled_mantissa_def nat_diff_distrib)
    from lo have "2 ^ (?b - 1) * 2 ^ (53 - ?b) \<le> m * 2 ^ (53 - ?b)" by simp
    moreover from True b have "(2::nat) ^ (?b - 1) * 2 ^ (53 - ?b) = 2 ^ 52"
      by (simp add: power_add [symmetric])
    moreover from hi have "m * 2 ^ (53 - ?b) < 2 ^ ?b * 2 ^ (53 - ?b)" by simp
    moreover from True have "(2::nat) ^ ?b * 2 ^ (53 - ?b) = 2 ^ 53"
      by (simp add: power_add [symmetric])
    ultimately show ?thesis
      unfolding s by linarith
  next
    case False
    define sh where "sh = ?b - 53"
    from False have sh: "0 < sh" and bs: "?b = sh + 53"
      by (simp_all add: sh_def)
    from False q have s: "scaled_mantissa m e = round_mantissa m sh"
      by (simp add: scaled_mantissa_def sh_def nat_diff_distrib) 
    from lo bs have "2 ^ 52 * 2 ^ sh \<le> m"
      by (simp add: power_add mult.commute)
    then have 1: "2 ^ 52 \<le> m div 2 ^ sh"
      by (simp add: less_eq_div_iff_mult_less_eq)
    from hi bs have "m < 2 ^ 53 * 2 ^ sh"
      by (simp add: power_add mult.commute)
    then have 2: "m div 2 ^ sh < 2 ^ 53"
      by (simp add: less_mult_imp_div_less)
    from 1 2 sh show ?thesis
      unfolding s round_mantissa_def by auto
  qed
qed

lemma scaled_mantissa_le:
  assumes "0 < m"
  shows "scaled_mantissa m e \<le> 2 ^ 53"
proof -
  let ?b = "bit_length m"
  let ?q = "quantum m e"
  have q: "e + int ?b - 53 \<le> ?q"
    by (simp add: quantum_def)
  have hi: "m < 2 ^ ?b" by (rule bit_length_upper)
  show ?thesis
  proof (cases "?q \<le> e")
    case True
    with q have "?b + nat (e - ?q) \<le> 53" by linarith
    then have "(2::nat) ^ (?b + nat (e - ?q)) \<le> 2 ^ 53"
      by (rule power_increasing) simp
    then have B: "(2::nat) ^ ?b * 2 ^ nat (e - ?q) \<le> 2 ^ 53"
      by (simp only: power_add)
    from hi have A: "m * 2 ^ nat (e - ?q) < 2 ^ ?b * 2 ^ nat (e - ?q)" by simp
    from A B have "m * 2 ^ nat (e - ?q) < 2 ^ 53"
      by (rule less_le_trans)
    with True show ?thesis
      by (simp add: scaled_mantissa_def)
  next
    case False
    define sh where "sh = nat (?q - e)"
    from False q have "?b \<le> 53 + sh" unfolding sh_def by linarith
    then have "(2::nat) ^ ?b \<le> 2 ^ (53 + sh)"
      by (rule power_increasing) simp
    then have "(2::nat) ^ ?b \<le> 2 ^ 53 * 2 ^ sh"
      by (simp only: power_add)
    with hi have "m < 2 ^ 53 * 2 ^ sh"
      by (rule less_le_trans)
    then have "m div 2 ^ sh < 2 ^ 53"
      by (simp add: less_mult_imp_div_less)
    with round_mantissa_le [of m sh] have "round_mantissa m sh \<le> 2 ^ 53"
      by linarith
    with False show ?thesis
      by (simp add: scaled_mantissa_def sh_def)
  qed
qed

lemma rne_is_double: "is_double (rne s m e)"
proof (cases "m = 0")
  case True
  then show ?thesis by (simp add: rne_def)
next
  case False
  let ?q = "quantum m e"
  let ?M = "scaled_mantissa m e"
  have lo: "- 1074 \<le> ?q" by (simp add: quantum_def)
  from False have le: "?M \<le> 2 ^ 53" using scaled_mantissa_le [of m e] by simp
  have n: "2 ^ 52 \<le> ?M \<or> ?q = - 1074"
  proof (cases "?q = - 1074")
    case True
    then show ?thesis by simp
  next
    case q: False
    then have "- 1074 \<le> e + int (bit_length m) - 53"
      by (simp add: quantum_def max_def split: if_splits)
    with False show ?thesis
      using scaled_mantissa_normal [of m e] by simp
  qed
  from False have r: "rne s m e = pack s ?M ?q"
    by (simp add: rne_def)
  show ?thesis
  proof (cases "?M = 2 ^ 53")
    case True
    with lo show ?thesis
      unfolding r pack_def by simp
  next
    case F: False
    with le have "?M < 2 ^ 53" by simp
    with lo n F show ?thesis
      unfolding r pack_def by simp
  qed
qed

lemma fmul_is_double: "is_double (fmul a b)"
  by (cases a; cases b) (simp_all add: rne_is_double)

section \<open>Multiplying by one and by two\<close>

lemmas number_defs =
  js_int_def js_ratio_def rne_def pack_def quantum_def scaled_mantissa_def round_mantissa_def
  round_half_up_def

lemma fmul_not_finite_left: "\<not> is_finite a \<Longrightarrow> \<not> is_finite (fmul a b)"
  by (cases a; cases b) auto

lemma fmul_not_finite_right: "\<not> is_finite b \<Longrightarrow> \<not> is_finite (fmul a b)"
  by (cases a; cases b) auto

lemma js_int_1: "js_int 1 = Fin False (2 ^ 52) (- 52)"
  by (simp add: number_defs bit_length.simps)

lemma js_int_2: "js_int 2 = Fin False (2 ^ 52) (- 51)"
  by (simp add: number_defs bit_length.simps)

lemma fmul_1:
  assumes "is_double c"
  shows "fmul c (js_int 1) = c"
proof (cases c)
  case NaN
  then show ?thesis by simp
next
  case (Inf s)
  then show ?thesis by (simp add: js_int_1)
next
  case (Fin s m e)
  have "fmul (Fin s m e) (js_int 1) = rne s (m * 2 ^ 52) (e - int 52)"
    by (simp add: js_int_1)
  also have "\<dots> = rne s m e"
    by (rule rne_shift)
  also from assms Fin have "\<dots> = Fin s m e"
    by (intro rne_double_id) simp
  finally show ?thesis
    by (simp only: Fin)
qed

lemma fmul_2_normal:
  assumes "2 ^ 52 \<le> M" and "M < 2 ^ 53" and "- 1074 \<le> q"
  shows "fmul (js_int 2) (Fin s M q) = (if 971 < q + 1 then Inf s else Fin s M (q + 1))"
proof -
  have "fmul (js_int 2) (Fin s M q) = rne s (M * 2 ^ 52) ((q + 1) - int 52)"
    by (simp add: js_int_2 mult.commute)
  also have "\<dots> = rne s M (q + 1)"
    by (rule rne_shift)
  also from assms have "\<dots> = (if 971 < q + 1 then Inf s else Fin s M (q + 1))"
    by (simp add: rne_normal)
  finally show ?thesis .
qed

lemma fmul_2_rne:
  assumes "0 < m" and "- 1074 \<le> e + int (bit_length m) - 53"
  shows "fmul (js_int 2) (rne s m e) = rne s m (e + 1)"
proof -
  let ?M = "scaled_mantissa m e"
  let ?q = "quantum m e"
  from assms have q: "?q = e + int (bit_length m) - 53"
    and q': "quantum m (e + 1) = ?q + 1"
    by (simp_all add: quantum_def)
  then have M': "scaled_mantissa m (e + 1) = ?M"
    by (simp add: scaled_mantissa_def)
  from assms have M: "2 ^ 52 \<le> ?M" "?M \<le> 2 ^ 53"
    using scaled_mantissa_normal [of m e] by simp_all
  from assms q have lo: "- 1074 \<le> ?q" by simp
  have two_inf: "fmul (js_int 2) (Inf s) = Inf s"
    by (simp add: js_int_2)
  have r: "rne s m (e + 1) = pack s ?M (?q + 1)"
    using assms(1) by (simp add: rne_def q' M')
  have l: "rne s m e = pack s ?M ?q"
    using assms(1) by (simp add: rne_def)
  show ?thesis
  proof (cases "?M = 2 ^ 53")
    case True
    with lo show ?thesis
      unfolding l r pack_def by (simp add: fmul_2_normal two_inf)
  next
    case False
    with M have "?M < 2 ^ 53" by simp
    with False M(1) lo show ?thesis
      unfolding l r pack_def by (simp add: fmul_2_normal two_inf)
  qed
qed

lemma fmul_2_zero: "fmul (js_int 2) (Fin s 0 e) = Fin s 0 (- 1074)"
  by (simp add: js_int_2 rne_def)

lemma fmul_2_double:
  assumes "is_double (Fin t n f)" and "is_finite (fmul (js_int 2) (Fin t n f))"
  shows "fmul (js_int 2) (Fin t n f) = Fin t n (f + 1)
       \<or> fmul (js_int 2) (Fin t n f) = Fin t (n * 2 ^ 1) f"
proof (cases "2 ^ 52 \<le> n")
  case True
  with assms(1) have "fmul (js_int 2) (Fin t n f) =
      (if 971 < f + 1 then Inf t else Fin t n (f + 1))"
    by (intro fmul_2_normal) simp_all
  with assms(2) show ?thesis
    by (simp split: if_splits)
next
  case False
  with assms(1) have f: "f = - 1074" and n: "n < 2 ^ 52"
    by simp_all
  show ?thesis
  proof (cases "n = 0")
    case True
    with f show ?thesis
      by (simp add: fmul_2_zero)
  next
    case False
    have "fmul (js_int 2) (Fin t n f) = rne t (n * 2 ^ 52) ((f + 1) - int 52)"
      by (simp add: js_int_2 mult.commute)
    also have "\<dots> = rne t n (f + 1)"
      by (rule rne_shift)
    finally have 1: "fmul (js_int 2) (Fin t n f) = rne t n (- 1073)"
      using f by simp
    from n have "bit_length n \<le> 52" by (rule bit_length_le)
    then have q: "quantum n (- 1073) = - 1074"
      by (simp add: quantum_def)
    then have "scaled_mantissa n (- 1073) = n * 2"
      by (simp add: scaled_mantissa_def)
    with q n False have "rne t n (- 1073) = Fin t (n * 2) (- 1074)"
      by (simp add: rne_def pack_def)
    with 1 f show ?thesis
      by simp
  qed
qed

lemma fmul_2_not_finite: "\<not> is_finite a \<Longrightarrow> fmul (js_int 2) a = a"
  by (cases a) (simp_all add: js_int_2)

lemma fmul_doubling_finite:
  assumes "is_double (Fin t n f)" and "is_finite (fmul (js_int 2) (Fin t n f))"
    and "product_in_normal_range (Fin s m e) (Fin t n f)"
  shows "fmul (Fin s m e) (fmul (js_int 2) (Fin t n f)) =
         fmul (js_int 2) (fmul (Fin s m e) (Fin t n f))"
proof -
  have l: "fmul (Fin s m e) (fmul (js_int 2) (Fin t n f)) = rne (s \<noteq> t) (m * n) (e + f + 1)"
    using fmul_2_double [OF assms(1,2)]
  proof
    assume "fmul (js_int 2) (Fin t n f) = Fin t n (f + 1)"
    then show ?thesis
      by (simp add: add.assoc)
  next
    assume "fmul (js_int 2) (Fin t n f) = Fin t (n * 2 ^ 1) f"
    then have "fmul (Fin s m e) (fmul (js_int 2) (Fin t n f)) =
        rne (s \<noteq> t) (m * n * 2 ^ 1) ((e + f + 1) - int 1)"
      by (simp add: mult.assoc)
    also have "\<dots> = rne (s \<noteq> t) (m * n) (e + f + 1)"
      by (rule rne_shift)
    finally show ?thesis .
  qed
  show ?thesis
  proof (cases "m * n = 0")
    case True
    then have "rne (s \<noteq> t) (m * n) (e + f + 1) = Fin (s \<noteq> t) 0 (- 1074)"
      and "fmul (Fin s m e) (Fin t n f) = Fin (s \<noteq> t) 0 (- 1074)"
      by (simp_all add: rne_def)
    with l show ?thesis
      by (simp add: fmul_2_zero)
  next
    case False
    with assms(3) have "fmul (js_int 2) (rne (s \<noteq> t) (m * n) (e + f)) =
        rne (s \<noteq> t) (m * n) (e + f + 1)"
      by (intro fmul_2_rne) simp_all
    with l show ?thesis
      by simp
  qed
qed

lemma fmul_doubling:
  assumes "is_double d" and "doubles_without_overflow d" and "product_in_normal_range c d"
  shows "fmul c (fmul (js_int 2) d) = fmul (js_int 2) (fmul c d)"
proof (cases "is_finite d")
  case False
  then have "\<not> is_finite (fmul c d)" by (rule fmul_not_finite_right)
  with False show ?thesis
    by (simp add: fmul_2_not_finite)
next
  case True
  then obtain t n f where d: "d = Fin t n f"
    by (cases d) simp_all
  with assms(2) have fin: "is_finite (fmul (js_int 2) (Fin t n f))"
    by (simp add: doubles_without_overflow_def)
  show ?thesis
  proof (cases c)
    case NaN
    then show ?thesis by (simp add: fmul_2_not_finite)
  next
    case (Inf s)
    from fmul_2_double [OF assms(1) [unfolded d] fin]
    have "fmul (Inf s) (fmul (js_int 2) (Fin t n f)) = fmul (Inf s) (Fin t n f)"
      by auto
    moreover have "\<not> is_finite (fmul (Inf s) (Fin t n f))"
      by (rule fmul_not_finite_left) simp
    then have "fmul (js_int 2) (fmul (Inf s) (Fin t n f)) = fmul (Inf s) (Fin t n f)"
      by (rule fmul_2_not_finite)
    ultimately show ?thesis
      unfolding d Inf by simp
  next
    case (Fin s m e)
    with assms d fin show ?thesis
      by (simp only: fmul_doubling_finite)
  qed
qed

text \<open>
  The condition \<open>product_in_normal_range\<close> in terms of values: the exact product of
  the two numbers is zero, or at least \<open>2^-1022\<close> in magnitude.
\<close>

lemma bit_length_real_bounds:
  assumes "0 < k"
  shows "2 powi (int (bit_length k) - 1) \<le> real k" and "real k < 2 powi (int (bit_length k))"
proof -
  let ?b = "bit_length k"
  from assms have b: "0 < ?b" by (rule bit_length_pos)
  then have "int ?b - 1 = int (?b - 1)" by simp
  then have "(2::real) powi (int ?b - 1) = 2 ^ (?b - 1)"
    by (simp only: power_int_of_nat)
  moreover from bit_length_lower [OF assms] have "real (2 ^ (?b - 1)) \<le> real k"
    by (simp only: of_nat_le_iff)
  ultimately show "2 powi (int ?b - 1) \<le> real k"
    by simp
  from bit_length_upper [of k] have "real k < real (2 ^ ?b)"
    by (simp only: of_nat_less_iff)
  then show "real k < 2 powi (int ?b)"
    by simp
qed

lemma normal_range_value:
  assumes "0 < k"
  shows "- 1074 \<le> e + int (bit_length k) - 53 \<longleftrightarrow> 2 powi (- 1022) \<le> real k * 2 powi e"
proof
  let ?b = "int (bit_length k)"
  assume "- 1074 \<le> e + ?b - 53"
  then have "- 1022 \<le> (?b - 1) + e" by simp
  then have "(2::real) powi (- 1022) \<le> 2 powi ((?b - 1) + e)"
    by (intro power_int_increasing) simp_all
  also have "\<dots> = 2 powi (?b - 1) * 2 powi e"
    by (rule power_int_add) simp
  also have "\<dots> \<le> real k * 2 powi e"
    using bit_length_real_bounds(1) [OF assms] by (intro mult_right_mono) simp_all
  finally show "2 powi (- 1022) \<le> real k * 2 powi e" .
next
  let ?b = "int (bit_length k)"
  assume a: "2 powi (- 1022) \<le> real k * 2 powi e"
  have "real k * 2 powi e < 2 powi ?b * 2 powi e"
    using bit_length_real_bounds(2) [OF assms] by (intro mult_strict_right_mono) simp_all
  also have "\<dots> = 2 powi (?b + e)"
    by (rule power_int_add [symmetric]) simp
  finally have lt: "(2::real) powi (- 1022) < 2 powi (?b + e)"
    using a by simp
  have "- 1022 < ?b + e"
  proof (rule ccontr)
    assume "\<not> - 1022 < ?b + e"
    then have "?b + e \<le> - 1022" by simp
    then have "(2::real) powi (?b + e) \<le> 2 powi (- 1022)"
      by (intro power_int_increasing) simp_all
    with lt show False by simp
  qed
  then show "- 1074 \<le> e + ?b - 53" by simp
qed

lemma product_in_normal_range_value:
  "product_in_normal_range (Fin s m e) (Fin t n f) \<longleftrightarrow>
     valof (Fin s m e) * valof (Fin t n f) = 0
     \<or> 2 powi (- 1022) \<le> \<bar>valof (Fin s m e) * valof (Fin t n f)\<bar>"
proof -
  have v: "\<bar>valof (Fin s m e) * valof (Fin t n f)\<bar> = real (m * n) * 2 powi (e + f)"
    by (simp add: abs_mult power_int_add)
  have z: "valof (Fin s m e) * valof (Fin t n f) = 0 \<longleftrightarrow> m * n = 0"
    by simp
  show ?thesis
  proof (cases "m * n = 0")
    case True
    with z show ?thesis by simp
  next
    case False
    then have "0 < m * n" by simp
    from normal_range_value [OF this, of "e + f"] False show ?thesis
      unfolding v z by (simp add: add.assoc add.commute)
  qed
qed

section \<open>Rounding to an integer\<close>

lemma rne_int_exact:
  assumes "0 < k" and "k < 2 ^ 53"
  shows "rne s k 0 = Fin s (k * 2 ^ (53 - bit_length k)) (int (bit_length k) - 53)"
proof -
  let ?b = "bit_length k"
  from assms(2) have b: "?b \<le> 53" by (rule bit_length_le)
  from assms(1) have b0: "0 < ?b" by (rule bit_length_pos)
  from b have q: "quantum k 0 = int ?b - 53"
    by (simp add: quantum_def)
  with b have M: "scaled_mantissa k 0 = k * 2 ^ (53 - ?b)"
    by (simp add: scaled_mantissa_def nat_diff_distrib)
  have "k * 2 ^ (53 - ?b) < 2 ^ ?b * 2 ^ (53 - ?b)"
    using bit_length_upper [of k] by simp
  also from b have "(2::nat) ^ ?b * 2 ^ (53 - ?b) = 2 ^ 53"
    by (simp add: power_add [symmetric])
  finally have "k * 2 ^ (53 - ?b) \<noteq> 2 ^ 53" by simp
  with assms(1) b show ?thesis
    by (simp add: rne_def pack_def q M)
qed

lemma valof_rne_int:
  assumes "k < 2 ^ 53"
  shows "valof (rne s k 0) = (if s then - 1 else 1) * real k"
proof (cases "k = 0")
  case True
  then show ?thesis by (simp add: rne_def)
next
  case False
  let ?b = "bit_length k"
  from assms have b: "?b \<le> 53" by (rule bit_length_le)
  have "(2::real) ^ (53 - ?b) * 2 powi (int ?b - 53) = 1"
  proof -
    from b have e: "int ?b - 53 = - int (53 - ?b)" by simp
    have "(2::real) powi (- int (53 - ?b)) = inverse (2 ^ (53 - ?b))"
      by (simp only: power_int_minus power_int_of_nat)
    then show ?thesis
      unfolding e by simp
  qed
  then have v: "real k * 2 ^ (53 - ?b) * 2 powi (int ?b - 53) = real k"
    by (simp only: mult.assoc mult_1_right)
  from False assms
  have "rne s k 0 = Fin s (k * 2 ^ (53 - ?b)) (int ?b - 53)"
    by (intro rne_int_exact) simp_all
  then have "valof (rne s k 0) =
      (if s then - 1 else 1) * (real k * 2 ^ (53 - ?b) * 2 powi (int ?b - 53))"
    by (simp only: valof.simps of_nat_mult of_nat_power of_nat_numeral mult.assoc)
  then show ?thesis
    by (simp only: v)
qed

lemma is_finite_rne_int:
  assumes "k < 2 ^ 53"
  shows "is_finite (rne s k 0)"
proof (cases "k = 0")
  case True
  then show ?thesis by (simp add: rne_def)
next
  case False
  with assms have "rne s k 0 = Fin s (k * 2 ^ (53 - bit_length k)) (int (bit_length k) - 53)"
    by (intro rne_int_exact) simp_all
  then show ?thesis by simp
qed

lemma floor_of_int_half: "\<lfloor>(of_int z :: real) + 1 / 2\<rfloor> = z"
  by (rule floor_unique) simp_all

lemma Math_round_integral:
  assumes "0 \<le> e"
  shows "valof (Math_round (Fin s m e)) = of_int \<lfloor>valof (Fin s m e) + 1 / 2\<rfloor>"
proof -
  from assms have "(2::real) powi e = 2 ^ nat e"
    by (simp add: power_int_def)
  then have "valof (Fin s m e) = of_int ((if s then - 1 else 1) * int m * 2 ^ nat e)"
    by simp
  then have "\<lfloor>valof (Fin s m e) + 1 / 2\<rfloor> = (if s then - 1 else 1) * int m * 2 ^ nat e"
    by (simp only: floor_of_int_half)
  with \<open>valof (Fin s m e) = of_int ((if s then - 1 else 1) * int m * 2 ^ nat e)\<close> assms
  show ?thesis
    by simp
qed

lemma round_half_up_floor:
  assumes "0 < k"
  shows "round_half_up s m k =
     \<lfloor>(if s then - 1 else 1) * real m * 2 powi (- int k) + 1 / 2\<rfloor>"
proof -
  let ?A = "(if s then - 2 * int m else 2 * int m) + 2 ^ k"
  have p: "(2::real) powi (- int k) = inverse (2 ^ k)"
    by (simp only: power_int_minus power_int_of_nat)
  have "(if s then - 1 else 1) * real m * inverse (2 ^ k) + 1 / 2 =
      real_of_int ?A / real_of_int (2 ^ Suc k)"
    by (simp add: field_simps)
  then have "\<lfloor>(if s then - 1 else 1) * real m * 2 powi (- int k) + 1 / 2\<rfloor> =
      \<lfloor>real_of_int ?A / real_of_int (2 ^ Suc k)\<rfloor>"
    by (simp only: p)
  also have "\<dots> = ?A div 2 ^ Suc k"
    by (rule floor_divide_of_int_eq)
  finally show ?thesis
    by (simp only: round_half_up_def)
qed

lemma Math_round_fraction:
  assumes "m < 2 ^ 53" and "e < 0"
  shows "is_finite (Math_round (Fin s m e))
       \<and> valof (Math_round (Fin s m e)) = of_int \<lfloor>valof (Fin s m e) + 1 / 2\<rfloor>"
proof -
  define k where "k = nat (- e)"
  with assms(2) have k: "0 < k" and e: "e = - int k"
    by simp_all
  define v where "v = real m * 2 powi (- int k)"
  define n where "n = round_half_up s m k"
  have p: "(2::real) powi (- int k) = inverse (2 ^ k)"
    by (simp only: power_int_minus power_int_of_nat)
  from k have "(2::real) ^ 1 \<le> 2 ^ k"
    by (intro power_increasing) simp_all
  then have "inverse ((2::real) ^ k) \<le> 1 / 2"
    by (simp add: field_simps)
  moreover have "0 < inverse ((2::real) ^ k)"
    by simp
  moreover from assms(1) have "real m < 2 ^ 53"
    by (metis of_nat_less_iff of_nat_numeral of_nat_power)
  ultimately have "real m * inverse (2 ^ k) < 2 ^ 53 * (1 / 2)"
    by (intro mult_less_le_imp_less) simp_all
  then have v_hi: "v < 2 ^ 52"
    by (simp add: v_def p)
  have v_lo: "0 \<le> v"
    by (simp add: v_def)
  have n_floor: "n = \<lfloor>(if s then - 1 else 1) * v + 1 / 2\<rfloor>"
    unfolding n_def v_def using round_half_up_floor [OF k, of s m]
    by (simp only: mult.assoc)
  have bound: "\<bar>n\<bar> \<le> 2 ^ 52 \<and> (if s then n \<le> 0 else 0 \<le> n)"
  proof (cases s)
    case True
    with n_floor have 1: "n = \<lfloor>- v + 1 / 2\<rfloor>" by simp
    from v_lo have 2: "\<lfloor>- v + 1 / 2\<rfloor> \<le> 0"
      by (simp add: floor_le_iff)
    from v_hi have 3: "- (2 ^ 52) \<le> \<lfloor>- v + 1 / 2\<rfloor>"
      by (simp add: le_floor_iff)
    from 1 2 3 have "\<bar>n\<bar> \<le> 2 ^ 52" and "n \<le> 0"
      by linarith+
    with True show ?thesis
      by simp
  next
    case False
    with n_floor have 1: "n = \<lfloor>v + 1 / 2\<rfloor>" by simp
    from v_lo have 2: "0 \<le> \<lfloor>v + 1 / 2\<rfloor>"
      by (simp add: le_floor_iff)
    from v_hi have 3: "\<lfloor>v + 1 / 2\<rfloor> \<le> 2 ^ 52"
      by (simp add: floor_le_iff)
    from 1 2 3 have "\<bar>n\<bar> \<le> 2 ^ 52" and "0 \<le> n"
      by linarith+
    with False show ?thesis
      by simp
  qed
  then have "\<bar>n\<bar> \<le> 2 ^ 52" by simp
  then have small: "nat \<bar>n\<bar> < 2 ^ 53"
    by (simp add: nat_less_iff)
  have r: "Math_round (Fin s m e) = rne s (nat \<bar>n\<bar>) 0"
    using assms(2) by (simp add: n_def k_def)
  have "valof (rne s (nat \<bar>n\<bar>) 0) = (if s then - 1 else 1) * real (nat \<bar>n\<bar>)"
    using small by (rule valof_rne_int)
  also from bound have "\<dots> = of_int n"
    by (cases s) simp_all
  finally have "valof (Math_round (Fin s m e)) = of_int n"
    by (simp only: r)
  moreover have "valof (Fin s m e) = (if s then - 1 else 1) * v"
    by (simp add: v_def e)
  ultimately have "valof (Math_round (Fin s m e)) = of_int \<lfloor>valof (Fin s m e) + 1 / 2\<rfloor>"
    by (simp only: n_floor)
  moreover from small have "is_finite (Math_round (Fin s m e))"
    unfolding r by (rule is_finite_rne_int)
  ultimately show ?thesis
    by simp
qed

lemma Math_round_value:
  assumes "is_double x" and "is_finite x"
  shows "is_finite (Math_round x) \<and> valof (Math_round x) = of_int \<lfloor>valof x + 1 / 2\<rfloor>"
proof -
  from assms(2) obtain s m e where x: "x = Fin s m e"
    by (cases x) simp_all
  show ?thesis
  proof (cases "0 \<le> e")
    case True
    then have "is_finite (Math_round (Fin s m e))" by simp
    with True show ?thesis
      unfolding x using Math_round_integral [of e s m] by simp
  next
    case False
    with assms(1) show ?thesis
      unfolding x by (intro Math_round_fraction) simp_all
  qed
qed

lemma Math_round_not_finite: "\<not> is_finite a \<Longrightarrow> \<not> is_finite (Math_round a)"
  by (cases a) auto

section \<open>The constructor, step by step\<close>

lemma arg_numerals [simp]:
  "arg (a # b # rest) 1 = b" "arg (a # b # c # rest) 2 = c" "arg [a] 1 = JUndefined"
  "arg [a] 2 = JUndefined" "arg [a, b] 2 = JUndefined"
  by (simp_all add: numeral_2_eq_2)

lemma checkForAPIOverrides_Inr:
  "checkForAPIOverrides a = Inr u \<longleftrightarrow> (\<forall>op. a op \<noteq> BaseStub op)"
  by (auto simp: checkForAPIOverrides_def intro: apiop.exhaust) (metis apiop.exhaust)

lemma checkForAPIOverrides_first_missing:
  "checkForAPIOverrides a =
     (case first_missing a of None \<Rightarrow> Inr () | Some op \<Rightarrow> Inl (Thrown (override_message op)))"
  by (simp add: checkForAPIOverrides_def first_missing_def required_ops_def override_message_def)

lemma first_missing_Some:
  "first_missing a = Some op \<Longrightarrow> a op = BaseStub op"
  by (auto simp: first_missing_def required_ops_def split: if_splits)

lemma first_missing_None:
  "first_missing a = None \<longleftrightarrow> (\<forall>op. a op \<noteq> BaseStub op)"
  by (auto simp: first_missing_def required_ops_def split: if_splits) (metis apiop.exhaust)




text \<open>
  What \<open>construct\<close> returns when nothing throws, with the two values that it
  computes more than once named.
\<close>

lemma construct_success:
  assumes "truthy (readProp options ''viewport'')"
    and "truthy (readProp options ''element'')"
    and "getElement S (readProp options ''element'') = JElement el"
    and "js_and (supportsCanvas S)
           (if truthy (readProp options ''viewer'')
            then readProp (readProp options ''viewer'') ''useCanvas'' else JBool True) = uc"
    and "setupCanvas S uc (readProp options ''viewport'') = Inr c"
    and "checkForAPIOverrides a = Inr ()"
    and "el\<lparr>elem_dir := ''ltr'', style_textAlign := ''left'', children := children el @ [c]\<rparr> = el'"
  shows "construct S a options =
     Inr (\<lparr>viewer = readProp options ''viewer'',
           viewport = readProp options ''viewport'',
           debugGridColor = normalizeDebugGridColor S (readProp options ''debugGridColor''),
           useCanvas = uc, container = JElement el', canvas = c, element = JElement el',
           imageSmoothingEnabled = True, api = a\<rparr>,
          (if truthy (readProp options ''source'')
           then [''[Drawer] options.source is no longer accepted; use TiledImage instead'']
           else [])
          @ (if truthy (readProp options ''opacity'')
             then [''[Drawer] options.opacity is no longer accepted; set the opacity on the TiledImage instead'']
             else []))"
  using assms by (simp add: construct_def console_assert_def Let_def)

lemma construct_api_independent:
  assumes "construct S a1 options = Inr r1"
  shows "construct S a2 options =
     (case checkForAPIOverrides a2 of Inl e \<Rightarrow> Inl e | Inr u \<Rightarrow> Inr ((fst r1)\<lparr>api := a2\<rparr>, snd r1))"
  using assms
  by (auto simp: construct_def Let_def split: sum.splits jsval.splits)

lemma construct_Inr_api:
  "construct S a options = Inr (d, msgs) \<Longrightarrow> api d = a \<and> checkForAPIOverrides a = Inr ()"
  by (auto simp: construct_def Let_def split: sum.splits jsval.splits)

lemma construct_Inr_fields:
  "construct S a options = Inr (d, msgs) \<Longrightarrow>
     viewer d = readProp options ''viewer''
     \<and> viewport d = readProp options ''viewport''
     \<and> debugGridColor d = normalizeDebugGridColor S (readProp options ''debugGridColor'')
     \<and> truthy (readProp options ''viewport'')
     \<and> truthy (readProp options ''element'')
     \<and> (\<exists>el. container d = JElement el) \<and> element d = container d"
  by (auto simp: construct_def Let_def console_assert_def split: sum.splits jsval.splits if_splits)


lemma DrawerBase_Inr_construct:
  "DrawerBase S a args = Inr r \<Longrightarrow> construct S a (normalizeOptions args) = Inr r"
  by (auto simp: DrawerBase_def split: sum.splits)

lemma DrawerBase_api_independent:
  assumes "DrawerBase S a1 args = Inr r1"
  shows "DrawerBase S a2 args =
     (case checkForAPIOverrides a2 of Inl e \<Rightarrow> Inl e | Inr u \<Rightarrow> Inr ((fst r1)\<lparr>api := a2\<rparr>, snd r1))"
proof -
  from assms have c: "construct S a1 (normalizeOptions args) = Inr r1"
    by (rule DrawerBase_Inr_construct)
  from assms show ?thesis
    by (auto simp: DrawerBase_def construct_api_independent [OF c] split: sum.splits)
qed


lemma normalizeOptions_legacy:
  "\<not> isPlainObject (arg args 0) \<Longrightarrow>
   normalizeOptions args =
     JObject True [(''source'', arg args 0), (''viewport'', arg args 1), (''element'', arg args 2)]"
  by (simp add: normalizeOptions_def)


section \<open>The transforms, step by step\<close>

lemma viewportToDrawerRectangle_eq:
  "viewport (snd st) = JViewport vp \<Longrightarrow>
   viewportToDrawerRectangle (JRect r) st =
     (Inr \<lparr>rect_x = fmul (pt_x (pixelFromPointNoRotate vp (getTopLeft r) True)) (pixelDensityRatio (fst st)),
           rect_y = fmul (pt_y (pixelFromPointNoRotate vp (getTopLeft r) True)) (pixelDensityRatio (fst st)),
           rect_width = fmul (pt_x (deltaPixelsFromPointsNoRotate vp (getSize r) True)) (pixelDensityRatio (fst st)),
           rect_height = fmul (pt_y (deltaPixelsFromPointsNoRotate vp (getSize r) True)) (pixelDensityRatio (fst st))\<rparr>, st)"
  by (simp add: viewportToDrawerRectangle_def Let_def)

lemma viewportCoordToDrawerCoord_eq:
  "viewport (snd st) = JViewport vp \<Longrightarrow>
   viewportCoordToDrawerCoord (JPoint p) st =
     (Inr \<lparr>pt_x = fmul (pt_x (pixelFromPointNoRotate vp p True)) (pixelDensityRatio (fst st)),
           pt_y = fmul (pt_y (pixelFromPointNoRotate vp p True)) (pixelDensityRatio (fst st))\<rparr>, st)"
  by (simp add: viewportCoordToDrawerCoord_def Let_def)

lemma transforms_keep_state:
  "snd (viewportToDrawerRectangle a st) = st" "snd (viewportCoordToDrawerCoord a st) = st"
  by (auto simp: viewportToDrawerRectangle_def viewportCoordToDrawerCoord_def Let_def
      split: jsval.splits)

lemma rectangle_at_density:
  "viewport this = JViewport vp \<Longrightarrow>
   fst (viewportToDrawerRectangle (JRect r) (S\<lparr>pixelDensityRatio := d\<rparr>, this)) =
     Inr \<lparr>rect_x = fmul (pt_x (pixelFromPointNoRotate vp (getTopLeft r) True)) d,
          rect_y = fmul (pt_y (pixelFromPointNoRotate vp (getTopLeft r) True)) d,
          rect_width = fmul (pt_x (deltaPixelsFromPointsNoRotate vp (getSize r) True)) d,
          rect_height = fmul (pt_y (deltaPixelsFromPointsNoRotate vp (getSize r) True)) d\<rparr>"
  by (simp add: viewportToDrawerRectangle_eq [where vp = vp])

section \<open>The calls that the transforms make\<close>

lemma and_then_eq:
  "and_then c k w =
     (case fst (c w) of Inl e \<Rightarrow> (Inl e, snd (c w)) | Inr x \<Rightarrow> k x (snd (c w)))"
  by (simp add: and_then_def split: prod.splits sum.splits)

lemma leaves_alone_and_then:
  assumes "leaves_alone obs c" and "\<And>x. leaves_alone obs (k x)"
  shows "leaves_alone obs (and_then c k)"
  unfolding leaves_alone_def
proof
  fix w
  from assms(1) have c: "obs (snd (c w)) = obs w"
    by (simp add: leaves_alone_def)
  show "obs (snd (and_then c k w)) = obs w"
  proof (cases "c w")
    case (Pair r w')
    with c have w': "obs w' = obs w"
      by simp
    show ?thesis
    proof (cases r)
      case (Inl e)
      with Pair w' show ?thesis
        by (simp add: and_then_def)
    next
      case (Inr x)
      from assms(2) have "obs (snd (k x w')) = obs w'"
        by (simp add: leaves_alone_def)
      with Pair Inr w' show ?thesis
        by (simp add: and_then_def)
    qed
  qed
qed

lemma answers_from_and_then:
  assumes "leaves_alone obs c" and "answers_from obs c"
    and "\<And>x. answers_from obs (k x)"
  shows "answers_from obs (and_then c k)"
  unfolding answers_from_def
proof (intro allI impI)
  fix w v
  assume o: "obs w = obs v"
  from assms(2) o have r: "fst (c w) = fst (c v)"
    unfolding answers_from_def by blast
  from assms(1) o have s: "obs (snd (c w)) = obs (snd (c v))"
    by (simp add: leaves_alone_def)
  show "fst (and_then c k w) = fst (and_then c k v)"
  proof (cases "fst (c w)")
    case (Inl e)
    with r have "fst (c v) = Inl e"
      by simp
    with Inl show ?thesis
      by (simp add: and_then_eq)
  next
    case (Inr x)
    from assms(3) s have "fst (k x (snd (c w))) = fst (k x (snd (c v)))"
      unfolding answers_from_def by blast
    moreover from Inr r have "fst (c v) = Inr x"
      by simp
    ultimately show ?thesis
      using Inr by (simp add: and_then_eq)
  qed
qed

lemma read_only_calls:
  assumes "read_only obs E"
  shows "leaves_alone obs (rect_getTopLeft E r)" "answers_from obs (rect_getTopLeft E r)"
    "leaves_alone obs (rect_getSize E r)" "answers_from obs (rect_getSize E r)"
    "leaves_alone obs (vp_pixelFromPointNoRotate E p b)"
    "answers_from obs (vp_pixelFromPointNoRotate E p b)"
    "leaves_alone obs (vp_deltaPixelsFromPointsNoRotate E p b)"
    "answers_from obs (vp_deltaPixelsFromPointsNoRotate E p b)"
  using assms unfolding read_only_def by blast+

lemma read_only_density:
  assumes "read_only obs E" and "obs w = obs w'"
  shows "get_pixelDensityRatio E w = get_pixelDensityRatio E w'"
  using assms unfolding read_only_def by blast

lemma leaves_alone_return: "leaves_alone obs (\<lambda>w. (f w, w))"
  by (simp add: leaves_alone_def)

lemma answers_from_return:
  assumes "\<And>w w'. obs w = obs w' \<Longrightarrow> f w = f w'"
  shows "answers_from obs (\<lambda>w. (f w, w))"
  unfolding answers_from_def
proof (intro allI impI)
  fix w w'
  assume "obs w = obs w'"
  then have "f w = f w'"
    by (rule assms)
  then show "fst (f w, w) = fst (f w', w')"
    by simp
qed

lemma rectangle_leaves_alone:
  assumes "read_only obs E"
  shows "leaves_alone obs (viewportToDrawerRectangle_eff E rectangle)"
  unfolding viewportToDrawerRectangle_eff_def
  by (intro leaves_alone_and_then read_only_calls [OF assms] leaves_alone_return)

lemma rectangle_answers_from:
  assumes "read_only obs E"
  shows "answers_from obs (viewportToDrawerRectangle_eff E rectangle)"
  unfolding viewportToDrawerRectangle_eff_def
proof (intro answers_from_and_then read_only_calls [OF assms] answers_from_return)
  fix topLeft size :: Point and w w'
  assume "obs w = obs w'"
  with assms have "get_pixelDensityRatio E w = get_pixelDensityRatio E w'"
    by (rule read_only_density)
  then show "Inr \<lparr>rect_x = fmul (pt_x topLeft) (get_pixelDensityRatio E w),
             rect_y = fmul (pt_y topLeft) (get_pixelDensityRatio E w),
             rect_width = fmul (pt_x size) (get_pixelDensityRatio E w),
             rect_height = fmul (pt_y size) (get_pixelDensityRatio E w)\<rparr> =
        Inr \<lparr>rect_x = fmul (pt_x topLeft) (get_pixelDensityRatio E w'),
             rect_y = fmul (pt_y topLeft) (get_pixelDensityRatio E w'),
             rect_width = fmul (pt_x size) (get_pixelDensityRatio E w'),
             rect_height = fmul (pt_y size) (get_pixelDensityRatio E w')\<rparr>"
    by simp
qed

lemma point_leaves_alone:
  assumes "read_only obs E"
  shows "leaves_alone obs (viewportCoordToDrawerCoord_eff E point)"
  unfolding viewportCoordToDrawerCoord_eff_def
  by (intro leaves_alone_and_then read_only_calls [OF assms] leaves_alone_return)

lemma point_answers_from:
  assumes "read_only obs E"
  shows "answers_from obs (viewportCoordToDrawerCoord_eff E point)"
  unfolding viewportCoordToDrawerCoord_eff_def
proof (intro answers_from_and_then read_only_calls [OF assms] answers_from_return)
  fix vpPoint :: Point and w w'
  assume "obs w = obs w'"
  with assms have "get_pixelDensityRatio E w = get_pixelDensityRatio E w'"
    by (rule read_only_density)
  then show "Inr \<lparr>pt_x = fmul (pt_x vpPoint) (get_pixelDensityRatio E w),
             pt_y = fmul (pt_y vpPoint) (get_pixelDensityRatio E w)\<rparr> =
        Inr \<lparr>pt_x = fmul (pt_x vpPoint) (get_pixelDensityRatio E w'),
             pt_y = fmul (pt_y vpPoint) (get_pixelDensityRatio E w')\<rparr>"
    by simp
qed

lemma pure_calls_rectangle:
  "viewportToDrawerRectangle_eff pure_calls r st = viewportToDrawerRectangle (JRect r) st"
  by (cases "viewport (snd st)")
    (simp_all add: viewportToDrawerRectangle_eff_def viewportToDrawerRectangle_def and_then_def
      pure_calls_def Let_def)

lemma pure_calls_point:
  "viewportCoordToDrawerCoord_eff pure_calls p st = viewportCoordToDrawerCoord (JPoint p) st"
  by (cases "viewport (snd st)")
    (simp_all add: viewportCoordToDrawerCoord_eff_def viewportCoordToDrawerCoord_def and_then_def
      pure_calls_def Let_def)

lemma pure_calls_read_only: "read_only (\<lambda>w. w) pure_calls"
  unfolding read_only_def leaves_alone_def answers_from_def
  by (simp add: pure_calls_def split: jsval.splits)

lemma counting_calls_read_only: "read_only snd counting_calls"
  unfolding read_only_def leaves_alone_def answers_from_def
  by (simp add: counting_calls_def)

lemma counting_calls_write:
  "viewport (snd st) = JViewport vp \<Longrightarrow>
   snd (viewportToDrawerRectangle_eff counting_calls r (n, st)) = (Suc (Suc n), st)"
  by (simp add: viewportToDrawerRectangle_eff_def and_then_def counting_calls_def pure_calls_def)

section \<open>Evaluating the small installation\<close>

lemma width_1601: "Math_round (fmul (js_ratio 8004 10) (js_int 2)) = js_int 1601"
  by (simp add: number_defs bit_length.simps)

lemma height_1201: "Math_round (fmul (js_ratio 6006 10) (js_int 2)) = js_int 1201"
  by (simp add: number_defs bit_length.simps)

text \<open>
  The literals \<open>800.4\<close> and \<open>600.6\<close> are the doubles nearest to these fractions: the
  last bit of either is worth \<open>2^-43\<close>, and either is closer than half of that.
\<close>

lemma literal_values:
  "js_ratio 8004 10 = Fin False 7040392854975283 (- 43)"
  "js_ratio 6006 10 = Fin False 5282933469138125 (- 43)"
  by (simp_all add: number_defs bit_length.simps)

lemma literals_nearest:
  "\<bar>valof (js_ratio 8004 10) - 8004 / 10\<bar> < 2 powi (- 44)"
  "\<bar>valof (js_ratio 6006 10) - 6006 / 10\<bar> < 2 powi (- 44)"
  by (simp_all add: literal_values power_int_minus field_simps)

lemma complete_api_check: "checkForAPIOverrides complete_api = Inr ()"
  by (simp add: checkForAPIOverrides_def complete_api_def)

lemma retina_fields:
  "pixelDensityRatio retina = js_int 2"
  "supportsCanvas retina = JBool True"
  "DEFAULT_SETTINGS_debugGridColor retina = JArray [JStr ''#437AB2'']"
  "getElement retina v = v"
  "makeNeutralElement retina = neutral_element"
  "setElementStyles retina c = c\<lparr>style_rest := [''opacity'', ''pointer-events'', ''touch-action'']\<rparr>"
  by (simp_all add: retina_def)

lemma unit_viewport_fields:
  "pixelFromPointNoRotate unit_viewport p current = p"
  "deltaPixelsFromPointsNoRotate unit_viewport p current = p"
  "pt_x (getContainerSize unit_viewport) = js_ratio 8004 10"
  "pt_y (getContainerSize unit_viewport) = js_ratio 6006 10"
  by (simp_all add: unit_viewport_def)

lemma retina_size:
  "calculateCanvasSize retina (JViewport unit_viewport) = Inr \<lparr>pt_x = js_int 1601, pt_y = js_int 1201\<rparr>"
  by (simp add: retina_fields unit_viewport_fields width_1601 height_1201)

lemma retina_canvas:
  "setupCanvas retina (JBool True) (JViewport unit_viewport) = Inr sized_canvas"
  by (simp add: setupCanvas_def retina_size retina_fields neutral_element_def sized_canvas_def
      del: calculateCanvasSize.simps)

lemma good_construction:
  "DrawerBase retina complete_api [good_options] = Inr (good_drawer, [])"
proof -
  have p: "readProp good_options ''viewer'' = some_viewer"
    "readProp good_options ''viewport'' = JViewport unit_viewport"
    "readProp good_options ''element'' = JElement parent_element"
    "readProp good_options ''debugGridColor'' = JUndefined"
    "readProp good_options ''source'' = JUndefined"
    "readProp good_options ''opacity'' = JUndefined"
    "readProp some_viewer ''useCanvas'' = JBool True"
    "truthy some_viewer"
    by (simp_all add: readProp_def good_options_def some_viewer_def)
  have "construct retina complete_api good_options = Inr (good_drawer, [])"
    by (subst construct_success [where el = parent_element and uc = "JBool True"
          and c = sized_canvas and el' = filled_element])
      (simp_all add: p retina_fields js_and_def retina_canvas complete_api_check
        parent_element_def filled_element_def good_drawer_def normalizeDebugGridColor_def
        js_or_def)
  moreover have "normalizeOptions [good_options] = good_options"
    by (simp add: normalizeOptions_def good_options_def)
  moreover have "getProp good_options ''viewer'' = Inr some_viewer"
    by (simp add: good_options_def)
  ultimately show ?thesis
    by (simp add: DrawerBase_def console_assert_def p)
qed

lemma color_construction:
  "DrawerBase retina complete_api [options_with_color c] =
     Inr (good_drawer\<lparr>debugGridColor := normalizeDebugGridColor retina c\<rparr>, [])"
proof -
  have p: "readProp (options_with_color c) ''viewer'' = some_viewer"
    "readProp (options_with_color c) ''viewport'' = JViewport unit_viewport"
    "readProp (options_with_color c) ''element'' = JElement parent_element"
    "readProp (options_with_color c) ''debugGridColor'' = c"
    "readProp (options_with_color c) ''source'' = JUndefined"
    "readProp (options_with_color c) ''opacity'' = JUndefined"
    "readProp some_viewer ''useCanvas'' = JBool True"
    "truthy some_viewer"
    by (simp_all add: readProp_def options_with_color_def some_viewer_def)
  have "construct retina complete_api (options_with_color c) =
      Inr (good_drawer\<lparr>debugGridColor := normalizeDebugGridColor retina c\<rparr>, [])"
    by (subst construct_success [where el = parent_element and uc = "JBool True"
          and c = sized_canvas and el' = filled_element])
      (simp_all add: p retina_fields js_and_def retina_canvas complete_api_check
        parent_element_def filled_element_def good_drawer_def)
  moreover have "normalizeOptions [options_with_color c] = options_with_color c"
    by (simp add: normalizeOptions_def options_with_color_def)
  moreover have "getProp (options_with_color c) ''viewer'' = Inr some_viewer"
    by (simp add: options_with_color_def)
  ultimately show ?thesis
    by (simp add: DrawerBase_def console_assert_def p)
qed

lemma color_read:
  "readProp (normalizeOptions [options_with_color c]) ''debugGridColor'' = c"
  by (simp add: normalizeOptions_def options_with_color_def readProp_def)

lemma legacy_normalized:
  "normalizeOptions legacy_args =
     JObject True
       [(''source'', some_source), (''viewport'', JViewport unit_viewport),
        (''element'', JElement parent_element)]"
  by (simp add: normalizeOptions_def legacy_args_def some_source_def)

lemma legacy_construction:
  "DrawerBase retina complete_api legacy_args =
     Inr (legacy_drawer,
          [''[Drawer] options.source is no longer accepted; use TiledImage instead''])"
proof -
  let ?o = "normalizeOptions legacy_args"
  have p: "readProp ?o ''viewer'' = JUndefined"
    "readProp ?o ''viewport'' = JViewport unit_viewport"
    "readProp ?o ''element'' = JElement parent_element"
    "readProp ?o ''debugGridColor'' = JUndefined"
    "readProp ?o ''source'' = some_source"
    "readProp ?o ''opacity'' = JUndefined"
    "truthy some_source"
    by (simp_all add: readProp_def legacy_normalized) (simp add: some_source_def)
  have "construct retina complete_api ?o =
      Inr (legacy_drawer,
           [''[Drawer] options.source is no longer accepted; use TiledImage instead''])"
    by (subst construct_success [where el = parent_element and uc = "JBool True"
          and c = sized_canvas and el' = filled_element])
      (simp_all add: p retina_fields js_and_def retina_canvas complete_api_check
        parent_element_def filled_element_def good_drawer_def legacy_drawer_def
        normalizeDebugGridColor_def js_or_def)
  moreover have "getProp (arg legacy_args 0) ''viewer'' = Inr (JBool True)"
    by (simp add: legacy_args_def some_source_def)
  ultimately show ?thesis
    by (simp add: DrawerBase_def console_assert_def)
qed

lemma positional_options:
  "construct retina complete_api (options_of_source s) =
   Inr (legacy_drawer,
        if truthy s then [''[Drawer] options.source is no longer accepted; use TiledImage instead'']
        else [])"
proof -
  let ?o = "options_of_source s"
  have p: "readProp ?o ''viewer'' = JUndefined"
    "readProp ?o ''viewport'' = JViewport unit_viewport"
    "readProp ?o ''element'' = JElement parent_element"
    "readProp ?o ''debugGridColor'' = JUndefined"
    "readProp ?o ''source'' = s"
    "readProp ?o ''opacity'' = JUndefined"
    by (simp_all add: readProp_def options_of_source_def)
  show ?thesis
    by (subst construct_success [where el = parent_element and uc = "JBool True"
          and c = sized_canvas and el' = filled_element])
      (simp_all add: p retina_fields js_and_def retina_canvas complete_api_check
        parent_element_def filled_element_def good_drawer_def legacy_drawer_def
        normalizeDebugGridColor_def js_or_def)
qed

lemma positional_normalized:
  "normalizeOptions sourceless_args = options_of_source JNull"
  "normalizeOptions ordinary_args = options_of_source (JStr ''tiles.dzi'')"
  by (simp_all add: normalizeOptions_def sourceless_args_def ordinary_args_def
      options_of_source_def)

lemma good_drawer_viewport: "viewport good_drawer = JViewport unit_viewport"
  by (simp add: good_drawer_def)

lemma retina_state_fields:
  "viewport (snd retina_state) = JViewport unit_viewport"
  "pixelDensityRatio (fst retina_state) = js_int 2"
  by (simp_all add: retina_state_def good_drawer_def retina_fields)

lemma fractional_products:
  "fmul (js_ratio 5 10) (js_int 2) = js_int 1"
  "fmul (js_ratio 25 100) (js_int 2) = js_ratio 5 10"
  "fmul (js_ratio 15 10) (js_int 2) = js_int 3"
  "fmul (js_ratio 3 10) (js_int 2) = js_ratio 6 10"
  "fmul (js_int 2) (js_int 2) = js_int 4"
  "fmul (js_ratio 5 10) (js_int 4) = js_int 2"
  "fmul (js_ratio 25 100) (js_int 4) = js_int 1"
  "fmul (js_ratio 15 10) (js_int 4) = js_int 6"
  "fmul (js_ratio 3 10) (js_int 4) = js_ratio 12 10"
  by (simp_all add: number_defs bit_length.simps)

lemma fractional_at_2:
  "fst (viewportToDrawerRectangle (JRect fractional_rect)
          (retina\<lparr>pixelDensityRatio := js_int 2\<rparr>, good_drawer)) = Inr fractional_rect_at_2"
  by (simp add: rectangle_at_density [OF good_drawer_viewport] unit_viewport_fields
      getTopLeft_def getSize_def fractional_rect_def fractional_rect_at_2_def fractional_products)

lemma fractional_at_4:
  "fst (viewportToDrawerRectangle (JRect fractional_rect)
          (retina\<lparr>pixelDensityRatio := fmul (js_int 2) (js_int 2)\<rparr>, good_drawer)) =
     Inr fractional_rect_at_4"
  by (simp add: rectangle_at_density [OF good_drawer_viewport] unit_viewport_fields
      getTopLeft_def getSize_def fractional_rect_def fractional_rect_at_4_def fractional_products)

lemma fractional_hypotheses:
  "is_double (js_int 2)" "doubles_without_overflow (js_int 2)"
  "product_in_normal_range (js_ratio 5 10) (js_int 2)"
  "product_in_normal_range (js_ratio 25 100) (js_int 2)"
  "product_in_normal_range (js_ratio 15 10) (js_int 2)"
  "product_in_normal_range (js_ratio 3 10) (js_int 2)"
  by (simp_all add: doubles_without_overflow_def number_defs bit_length.simps)

lemma fractional_is_double:
  "is_double (js_ratio 5 10)" "is_double (js_ratio 25 100)" "is_double (js_ratio 15 10)"
  "is_double (js_ratio 3 10)"
  by (simp_all add: number_defs bit_length.simps)

section \<open>Enforcement of the overrides\<close>

text \<open>
  C1. The constructor ends with the check of the five required operations, each
  compared with the placeholder of the base class. An instance is returned only if
  none of the five is the placeholder. With arguments that construct an instance for
  some class, a class that leaves an operation as the placeholder gets no instance:
  the constructor throws the message naming the first such operation in the order
  draw, canRotate, destroy, clear, setImageSmoothingEnabled, which is the missing
  operation itself when it is the only one.
\<close>

theorem override_enforcement:
  "(DrawerBase S this_api args = Inr (d, msgs) \<longrightarrow>
      api d = this_api \<and> (\<forall>op. api d op \<noteq> BaseStub op))
   \<and> (this_api op = BaseStub op \<and> DrawerBase S other_api args = Inr r \<longrightarrow>
        (\<exists>op'. first_missing this_api = Some op' \<and> this_api op' = BaseStub op'
           \<and> DrawerBase S this_api args = Inl (Thrown (override_message op'))))
   \<and> (this_api op = BaseStub op \<and> (\<forall>op'. op' \<noteq> op \<longrightarrow> this_api op' \<noteq> BaseStub op')
        \<and> DrawerBase S other_api args = Inr r \<longrightarrow>
        DrawerBase S this_api args = Inl (Thrown (override_message op)))"
proof (intro conjI impI)
  assume "DrawerBase S this_api args = Inr (d, msgs)"
  then have "construct S this_api (normalizeOptions args) = Inr (d, msgs)"
    by (rule DrawerBase_Inr_construct)
  then have "api d = this_api \<and> checkForAPIOverrides this_api = Inr ()"
    by (rule construct_Inr_api)
  then show "api d = this_api" and "\<forall>op. api d op \<noteq> BaseStub op"
    by (simp_all add: checkForAPIOverrides_Inr)
next
  assume a: "this_api op = BaseStub op \<and> DrawerBase S other_api args = Inr r"
  then have "first_missing this_api \<noteq> None"
    by (auto simp: first_missing_None)
  then obtain op' where f: "first_missing this_api = Some op'"
    by auto
  with a show "\<exists>op'. first_missing this_api = Some op' \<and> this_api op' = BaseStub op'
           \<and> DrawerBase S this_api args = Inl (Thrown (override_message op'))"
    by (auto simp: DrawerBase_api_independent [of S other_api args r this_api]
        checkForAPIOverrides_first_missing first_missing_Some)
next
  assume a: "this_api op = BaseStub op \<and> (\<forall>op'. op' \<noteq> op \<longrightarrow> this_api op' \<noteq> BaseStub op')
        \<and> DrawerBase S other_api args = Inr r"
  then have "first_missing this_api \<noteq> None"
    by (auto simp: first_missing_None)
  then obtain op' where f: "first_missing this_api = Some op'"
    by auto
  then have "this_api op' = BaseStub op'"
    by (rule first_missing_Some)
  with a have "op' = op" by auto
  with a f show "DrawerBase S this_api args = Inl (Thrown (override_message op))"
    by (auto simp: DrawerBase_api_independent [of S other_api args r this_api]
        checkForAPIOverrides_first_missing)
qed

theorem override_enforcement_witness:
  "DrawerBase retina complete_api [good_options] = Inr (good_drawer, [])
   \<and> api good_drawer = complete_api \<and> api good_drawer Draw \<noteq> BaseStub Draw
   \<and> api_without Draw Draw = BaseStub Draw
   \<and> api_without Draw Clear \<noteq> BaseStub Clear
   \<and> DrawerBase retina (api_without Draw) [good_options] =
       Inl (Thrown ''[drawer].draw must be implemented by child class'')"
proof -
  have g: "DrawerBase retina complete_api [good_options] = Inr (good_drawer, [])"
    by (rule good_construction)
  have m: "api_without Draw Draw = BaseStub Draw"
    and o: "\<forall>op'. op' \<noteq> Draw \<longrightarrow> api_without Draw op' \<noteq> BaseStub op'"
    by (simp_all add: api_without_def)
  from override_enforcement
    [of retina complete_api "[good_options]" good_drawer "[]" Draw complete_api
      "(good_drawer, [])"]
  have 1: "api good_drawer = complete_api \<and> (\<forall>op. api good_drawer op \<noteq> BaseStub op)"
    using g by blast
  from override_enforcement
    [of retina "api_without Draw" "[good_options]" good_drawer "[]" Draw complete_api
      "(good_drawer, [])"]
  have 2: "DrawerBase retina (api_without Draw) [good_options] =
      Inl (Thrown (override_message Draw))"
    using g m o by blast
  from 1 2 g m o show ?thesis
    by (simp add: override_message_def complete_api_def)
qed

section \<open>The surface size\<close>

text \<open>
  C2. The surface size is the container size of the viewport, each axis multiplied
  by the pixel density ratio and rounded by \<open>Math.round\<close>, the width from the width
  alone and the height from the height alone. Where the product is finite the rounded
  value is the integer \<open>floor (p + 1/2)\<close> of the product \<open>p\<close>, the integer nearest to
  it. A container of 800.4 by 600.6 at the density 2 gives 1601 by 1201.
\<close>

theorem surface_size:
  "calculateCanvasSize S (JViewport vp) =
     Inr \<lparr>pt_x = Math_round (fmul (pt_x (getContainerSize vp)) (pixelDensityRatio S)),
          pt_y = Math_round (fmul (pt_y (getContainerSize vp)) (pixelDensityRatio S))\<rparr>
   \<and> (\<forall>w. is_finite (fmul w (pixelDensityRatio S)) \<longrightarrow>
          is_finite (Math_round (fmul w (pixelDensityRatio S)))
          \<and> valof (Math_round (fmul w (pixelDensityRatio S))) =
              of_int \<lfloor>valof (fmul w (pixelDensityRatio S)) + 1 / 2\<rfloor>)
   \<and> calculateCanvasSize (S\<lparr>pixelDensityRatio := js_int 2\<rparr>)
        (JViewport (vp\<lparr>getContainerSize := \<lparr>pt_x = js_ratio 8004 10, pt_y = js_ratio 6006 10\<rparr>\<rparr>)) =
       Inr \<lparr>pt_x = js_int 1601, pt_y = js_int 1201\<rparr>"
proof (intro conjI allI impI)
  show "calculateCanvasSize S (JViewport vp) =
     Inr \<lparr>pt_x = Math_round (fmul (pt_x (getContainerSize vp)) (pixelDensityRatio S)),
          pt_y = Math_round (fmul (pt_y (getContainerSize vp)) (pixelDensityRatio S))\<rparr>"
    by simp
next
  fix w
  assume f: "is_finite (fmul w (pixelDensityRatio S))"
  have d: "is_double (fmul w (pixelDensityRatio S))"
    by (rule fmul_is_double)
  from Math_round_value [OF d f]
  show "is_finite (Math_round (fmul w (pixelDensityRatio S)))"
    and "valof (Math_round (fmul w (pixelDensityRatio S))) =
      of_int \<lfloor>valof (fmul w (pixelDensityRatio S)) + 1 / 2\<rfloor>"
    by simp_all
next
  show "calculateCanvasSize (S\<lparr>pixelDensityRatio := js_int 2\<rparr>)
        (JViewport (vp\<lparr>getContainerSize := \<lparr>pt_x = js_ratio 8004 10, pt_y = js_ratio 6006 10\<rparr>\<rparr>)) =
       Inr \<lparr>pt_x = js_int 1601, pt_y = js_int 1201\<rparr>"
    by (simp add: width_1601 height_1201)
qed

theorem surface_size_witness:
  "is_finite (fmul (js_ratio 8004 10) (pixelDensityRatio retina))
   \<and> \<lfloor>valof (fmul (js_ratio 8004 10) (pixelDensityRatio retina)) + 1 / 2\<rfloor> = 1601
   \<and> calculateCanvasSize retina (JViewport unit_viewport) =
       Inr \<lparr>pt_x = js_int 1601, pt_y = js_int 1201\<rparr>"
proof -
  have d: "pixelDensityRatio retina = js_int 2"
    by (rule retina_fields(1))
  have f: "is_finite (fmul (js_ratio 8004 10) (js_int 2))"
    by (simp add: number_defs bit_length.simps)
  have "valof (js_int 1601) = 1601"
    unfolding js_int_def using valof_rne_int [of 1601 False] by simp
  moreover from surface_size [of retina unit_viewport] f
  have "valof (Math_round (fmul (js_ratio 8004 10) (js_int 2))) =
      of_int \<lfloor>valof (fmul (js_ratio 8004 10) (js_int 2)) + 1 / 2\<rfloor>"
    unfolding d by blast
  ultimately have "real_of_int \<lfloor>valof (fmul (js_ratio 8004 10) (js_int 2)) + 1 / 2\<rfloor> = 1601"
    by (simp only: width_1601)
  then have "\<lfloor>valof (fmul (js_ratio 8004 10) (js_int 2)) + 1 / 2\<rfloor> = 1601"
    by linarith
  with f show ?thesis
    unfolding d by (simp add: retina_size del: calculateCanvasSize.simps)
qed

section \<open>The rectangle transform\<close>

text \<open>
  C3. On a drawer with a viewport, \<open>viewportToDrawerRectangle\<close> returns the rectangle
  whose position is the projection by \<open>pixelFromPointNoRotate\<close> of the top-left point of
  the argument and whose size is the projection by \<open>deltaPixelsFromPointsNoRotate\<close> of
  its size, each of the four components multiplied by the pixel density ratio, and it
  leaves the state as it was. Nothing is rounded to an integer: at the density 1 the
  result holds the projected components themselves, fractional or not.
\<close>

theorem rectangle_transform:
  "viewport (snd st) = JViewport vp \<longrightarrow>
     viewportToDrawerRectangle (JRect r) st =
       (Inr \<lparr>rect_x = fmul (pt_x (pixelFromPointNoRotate vp \<lparr>pt_x = rect_x r, pt_y = rect_y r\<rparr> True))
                      (pixelDensityRatio (fst st)),
             rect_y = fmul (pt_y (pixelFromPointNoRotate vp \<lparr>pt_x = rect_x r, pt_y = rect_y r\<rparr> True))
                      (pixelDensityRatio (fst st)),
             rect_width =
               fmul (pt_x (deltaPixelsFromPointsNoRotate vp
                             \<lparr>pt_x = rect_width r, pt_y = rect_height r\<rparr> True))
                 (pixelDensityRatio (fst st)),
             rect_height =
               fmul (pt_y (deltaPixelsFromPointsNoRotate vp
                             \<lparr>pt_x = rect_width r, pt_y = rect_height r\<rparr> True))
                 (pixelDensityRatio (fst st))\<rparr>, st)
     \<and> (pixelDensityRatio (fst st) = js_int 1
        \<and> is_double (pt_x (pixelFromPointNoRotate vp \<lparr>pt_x = rect_x r, pt_y = rect_y r\<rparr> True))
        \<and> is_double (pt_y (pixelFromPointNoRotate vp \<lparr>pt_x = rect_x r, pt_y = rect_y r\<rparr> True))
        \<and> is_double (pt_x (deltaPixelsFromPointsNoRotate vp
                              \<lparr>pt_x = rect_width r, pt_y = rect_height r\<rparr> True))
        \<and> is_double (pt_y (deltaPixelsFromPointsNoRotate vp
                              \<lparr>pt_x = rect_width r, pt_y = rect_height r\<rparr> True)) \<longrightarrow>
        fst (viewportToDrawerRectangle (JRect r) st) =
          Inr \<lparr>rect_x = pt_x (pixelFromPointNoRotate vp \<lparr>pt_x = rect_x r, pt_y = rect_y r\<rparr> True),
               rect_y = pt_y (pixelFromPointNoRotate vp \<lparr>pt_x = rect_x r, pt_y = rect_y r\<rparr> True),
               rect_width =
                 pt_x (deltaPixelsFromPointsNoRotate vp
                         \<lparr>pt_x = rect_width r, pt_y = rect_height r\<rparr> True),
               rect_height =
                 pt_y (deltaPixelsFromPointsNoRotate vp
                         \<lparr>pt_x = rect_width r, pt_y = rect_height r\<rparr> True)\<rparr>)"
proof (intro impI conjI)
  assume v: "viewport (snd st) = JViewport vp"
  show eq: "viewportToDrawerRectangle (JRect r) st =
       (Inr \<lparr>rect_x = fmul (pt_x (pixelFromPointNoRotate vp \<lparr>pt_x = rect_x r, pt_y = rect_y r\<rparr> True))
                      (pixelDensityRatio (fst st)),
             rect_y = fmul (pt_y (pixelFromPointNoRotate vp \<lparr>pt_x = rect_x r, pt_y = rect_y r\<rparr> True))
                      (pixelDensityRatio (fst st)),
             rect_width =
               fmul (pt_x (deltaPixelsFromPointsNoRotate vp
                             \<lparr>pt_x = rect_width r, pt_y = rect_height r\<rparr> True))
                 (pixelDensityRatio (fst st)),
             rect_height =
               fmul (pt_y (deltaPixelsFromPointsNoRotate vp
                             \<lparr>pt_x = rect_width r, pt_y = rect_height r\<rparr> True))
                 (pixelDensityRatio (fst st))\<rparr>, st)"
    using viewportToDrawerRectangle_eq [OF v, of r]
    by (simp only: getTopLeft_def getSize_def)
  assume "pixelDensityRatio (fst st) = js_int 1
        \<and> is_double (pt_x (pixelFromPointNoRotate vp \<lparr>pt_x = rect_x r, pt_y = rect_y r\<rparr> True))
        \<and> is_double (pt_y (pixelFromPointNoRotate vp \<lparr>pt_x = rect_x r, pt_y = rect_y r\<rparr> True))
        \<and> is_double (pt_x (deltaPixelsFromPointsNoRotate vp
                              \<lparr>pt_x = rect_width r, pt_y = rect_height r\<rparr> True))
        \<and> is_double (pt_y (deltaPixelsFromPointsNoRotate vp
                              \<lparr>pt_x = rect_width r, pt_y = rect_height r\<rparr> True))"
  then show "fst (viewportToDrawerRectangle (JRect r) st) =
          Inr \<lparr>rect_x = pt_x (pixelFromPointNoRotate vp \<lparr>pt_x = rect_x r, pt_y = rect_y r\<rparr> True),
               rect_y = pt_y (pixelFromPointNoRotate vp \<lparr>pt_x = rect_x r, pt_y = rect_y r\<rparr> True),
               rect_width =
                 pt_x (deltaPixelsFromPointsNoRotate vp
                         \<lparr>pt_x = rect_width r, pt_y = rect_height r\<rparr> True),
               rect_height =
                 pt_y (deltaPixelsFromPointsNoRotate vp
                         \<lparr>pt_x = rect_width r, pt_y = rect_height r\<rparr> True)\<rparr>"
    unfolding eq by (simp add: fmul_1)
qed

theorem rectangle_transform_witness:
  "viewport (snd retina_state) = JViewport unit_viewport
   \<and> viewportToDrawerRectangle (JRect fractional_rect) retina_state =
       (Inr fractional_rect_at_2, retina_state)
   \<and> is_double (js_ratio 3 10)
   \<and> fst (viewportToDrawerRectangle (JRect fractional_rect)
            (retina\<lparr>pixelDensityRatio := js_int 1\<rparr>, good_drawer)) = Inr fractional_rect"
proof -
  have v: "viewport (snd retina_state) = JViewport unit_viewport"
    by (rule retina_state_fields(1))
  have 1: "viewportToDrawerRectangle (JRect fractional_rect) retina_state =
       (Inr fractional_rect_at_2, retina_state)"
    using rectangle_transform [of retina_state unit_viewport fractional_rect] v
    by (simp add: retina_state_fields(2) unit_viewport_fields fractional_rect_def
        fractional_rect_at_2_def fractional_products)
  have "fst (viewportToDrawerRectangle (JRect fractional_rect)
            (retina\<lparr>pixelDensityRatio := js_int 1\<rparr>, good_drawer)) =
      Inr \<lparr>rect_x = pt_x (pixelFromPointNoRotate unit_viewport
                 \<lparr>pt_x = rect_x fractional_rect, pt_y = rect_y fractional_rect\<rparr> True),
           rect_y = pt_y (pixelFromPointNoRotate unit_viewport
                 \<lparr>pt_x = rect_x fractional_rect, pt_y = rect_y fractional_rect\<rparr> True),
           rect_width = pt_x (deltaPixelsFromPointsNoRotate unit_viewport
                 \<lparr>pt_x = rect_width fractional_rect, pt_y = rect_height fractional_rect\<rparr> True),
           rect_height = pt_y (deltaPixelsFromPointsNoRotate unit_viewport
                 \<lparr>pt_x = rect_width fractional_rect, pt_y = rect_height fractional_rect\<rparr> True)\<rparr>"
    by (rule rectangle_transform [THEN mp, THEN conjunct2, THEN mp])
      (simp_all add: good_drawer_viewport unit_viewport_fields fractional_rect_def
        fractional_is_double)
  then have 2: "fst (viewportToDrawerRectangle (JRect fractional_rect)
            (retina\<lparr>pixelDensityRatio := js_int 1\<rparr>, good_drawer)) = Inr fractional_rect"
    by (simp add: unit_viewport_fields fractional_rect_def)
  from v 1 2 fractional_is_double(4) show ?thesis
    by simp
qed

section \<open>Validation of the references\<close>




section \<open>Doubling the density\<close>

text \<open>
  C5, as amended. With the viewport held fixed, let the density \<open>d\<close> be a double
  whose double \<open>2 * d\<close> does not overflow, and let none of the four products of a
  projected component of the rectangle with \<open>d\<close> underflow, each being zero or in
  the normal range. Then every component of the rectangle computed at the density
  \<open>2 * d\<close> is exactly twice the same component computed at the density \<open>d\<close>.
\<close>

theorem density_doubling:
  "viewport this = JViewport vp \<and> is_double d \<and> doubles_without_overflow d
   \<and> product_in_normal_range (pt_x (pixelFromPointNoRotate vp (getTopLeft r) True)) d
   \<and> product_in_normal_range (pt_y (pixelFromPointNoRotate vp (getTopLeft r) True)) d
   \<and> product_in_normal_range (pt_x (deltaPixelsFromPointsNoRotate vp (getSize r) True)) d
   \<and> product_in_normal_range (pt_y (deltaPixelsFromPointsNoRotate vp (getSize r) True)) d
   \<and> fst (viewportToDrawerRectangle (JRect r) (S\<lparr>pixelDensityRatio := d\<rparr>, this)) = Inr r1
   \<and> fst (viewportToDrawerRectangle (JRect r)
             (S\<lparr>pixelDensityRatio := fmul (js_int 2) d\<rparr>, this)) = Inr r2
   \<longrightarrow> rect_x r2 = fmul (js_int 2) (rect_x r1)
     \<and> rect_y r2 = fmul (js_int 2) (rect_y r1)
     \<and> rect_width r2 = fmul (js_int 2) (rect_width r1)
     \<and> rect_height r2 = fmul (js_int 2) (rect_height r1)"
proof
  assume a: "viewport this = JViewport vp \<and> is_double d \<and> doubles_without_overflow d
   \<and> product_in_normal_range (pt_x (pixelFromPointNoRotate vp (getTopLeft r) True)) d
   \<and> product_in_normal_range (pt_y (pixelFromPointNoRotate vp (getTopLeft r) True)) d
   \<and> product_in_normal_range (pt_x (deltaPixelsFromPointsNoRotate vp (getSize r) True)) d
   \<and> product_in_normal_range (pt_y (deltaPixelsFromPointsNoRotate vp (getSize r) True)) d
   \<and> fst (viewportToDrawerRectangle (JRect r) (S\<lparr>pixelDensityRatio := d\<rparr>, this)) = Inr r1
   \<and> fst (viewportToDrawerRectangle (JRect r)
             (S\<lparr>pixelDensityRatio := fmul (js_int 2) d\<rparr>, this)) = Inr r2"
  then have v: "viewport this = JViewport vp" by simp
  from a have r1: "r1 =
      \<lparr>rect_x = fmul (pt_x (pixelFromPointNoRotate vp (getTopLeft r) True)) d,
       rect_y = fmul (pt_y (pixelFromPointNoRotate vp (getTopLeft r) True)) d,
       rect_width = fmul (pt_x (deltaPixelsFromPointsNoRotate vp (getSize r) True)) d,
       rect_height = fmul (pt_y (deltaPixelsFromPointsNoRotate vp (getSize r) True)) d\<rparr>"
    by (simp add: rectangle_at_density [OF v])
  from a have r2: "r2 =
      \<lparr>rect_x = fmul (pt_x (pixelFromPointNoRotate vp (getTopLeft r) True)) (fmul (js_int 2) d),
       rect_y = fmul (pt_y (pixelFromPointNoRotate vp (getTopLeft r) True)) (fmul (js_int 2) d),
       rect_width = fmul (pt_x (deltaPixelsFromPointsNoRotate vp (getSize r) True)) (fmul (js_int 2) d),
       rect_height = fmul (pt_y (deltaPixelsFromPointsNoRotate vp (getSize r) True)) (fmul (js_int 2) d)\<rparr>"
    by (simp add: rectangle_at_density [OF v])
  from a show "rect_x r2 = fmul (js_int 2) (rect_x r1)
     \<and> rect_y r2 = fmul (js_int 2) (rect_y r1)
     \<and> rect_width r2 = fmul (js_int 2) (rect_width r1)
     \<and> rect_height r2 = fmul (js_int 2) (rect_height r1)"
    unfolding r1 r2 by (simp add: fmul_doubling)
qed

theorem density_doubling_witness:
  "is_double (js_int 2) \<and> doubles_without_overflow (js_int 2)
   \<and> product_in_normal_range (js_ratio 3 10) (js_int 2)
   \<and> fst (viewportToDrawerRectangle (JRect fractional_rect)
            (retina\<lparr>pixelDensityRatio := js_int 2\<rparr>, good_drawer)) = Inr fractional_rect_at_2
   \<and> fst (viewportToDrawerRectangle (JRect fractional_rect)
            (retina\<lparr>pixelDensityRatio := fmul (js_int 2) (js_int 2)\<rparr>, good_drawer)) =
       Inr fractional_rect_at_4
   \<and> rect_x fractional_rect_at_4 = fmul (js_int 2) (rect_x fractional_rect_at_2)
   \<and> rect_y fractional_rect_at_4 = fmul (js_int 2) (rect_y fractional_rect_at_2)
   \<and> rect_width fractional_rect_at_4 = fmul (js_int 2) (rect_width fractional_rect_at_2)
   \<and> rect_height fractional_rect_at_4 = fmul (js_int 2) (rect_height fractional_rect_at_2)"
proof -
  have p: "product_in_normal_range
        (pt_x (pixelFromPointNoRotate unit_viewport (getTopLeft fractional_rect) True)) (js_int 2)"
    "product_in_normal_range
        (pt_y (pixelFromPointNoRotate unit_viewport (getTopLeft fractional_rect) True)) (js_int 2)"
    "product_in_normal_range
        (pt_x (deltaPixelsFromPointsNoRotate unit_viewport (getSize fractional_rect) True)) (js_int 2)"
    "product_in_normal_range
        (pt_y (deltaPixelsFromPointsNoRotate unit_viewport (getSize fractional_rect) True)) (js_int 2)"
    by (simp_all add: unit_viewport_fields getTopLeft_def getSize_def fractional_rect_def
        fractional_hypotheses)
  from density_doubling [where this = good_drawer and vp = unit_viewport and d = "js_int 2"
      and r = fractional_rect and S = retina and ?r1.0 = fractional_rect_at_2
      and ?r2.0 = fractional_rect_at_4]
    good_drawer_viewport fractional_hypotheses(1,2) p fractional_at_2 fractional_at_4
  have "rect_x fractional_rect_at_4 = fmul (js_int 2) (rect_x fractional_rect_at_2)
   \<and> rect_y fractional_rect_at_4 = fmul (js_int 2) (rect_y fractional_rect_at_2)
   \<and> rect_width fractional_rect_at_4 = fmul (js_int 2) (rect_width fractional_rect_at_2)
   \<and> rect_height fractional_rect_at_4 = fmul (js_int 2) (rect_height fractional_rect_at_2)"
    by blast
  with fractional_hypotheses fractional_at_2 fractional_at_4 show ?thesis
    by blast
qed

text \<open>
  C5, as stated, fails where a product underflows. At the density 0.5 the left edge
  \<open>5e-324\<close> is rounded to 0, at the density 1 it stays \<open>5e-324\<close>, and twice 0 is not
  \<open>5e-324\<close>.
\<close>

theorem density_doubling_counterexample:
  "map_sum id rect_x
     (fst (viewportToDrawerRectangle (JRect tiny_rect)
             (retina\<lparr>pixelDensityRatio := js_ratio 5 10\<rparr>, good_drawer))) = Inr (js_int 0)
   \<and> map_sum id rect_x
     (fst (viewportToDrawerRectangle (JRect tiny_rect)
             (retina\<lparr>pixelDensityRatio := fmul (js_int 2) (js_ratio 5 10)\<rparr>, good_drawer))) =
       Inr (Fin False 1 (- 1074))
   \<and> fmul (js_int 2) (js_int 0) \<noteq> Fin False 1 (- 1074)"
proof -
  have "fmul (Fin False 1 (- 1074)) (js_ratio 5 10) = js_int 0"
    "fmul (Fin False 1 (- 1074)) (fmul (js_int 2) (js_ratio 5 10)) = Fin False 1 (- 1074)"
    "fmul (js_int 2) (js_int 0) \<noteq> Fin False 1 (- 1074)"
    by (simp_all add: number_defs bit_length.simps)
  then show ?thesis
    by (simp add: rectangle_at_density [OF good_drawer_viewport] unit_viewport_fields
        getTopLeft_def tiny_rect_def)
qed

section \<open>Purity and totality of the transforms\<close>

text \<open>
  C6. The transforms write nothing of their own, and what they return is made of what
  the calls return and of the density ratio alone. For calls that are read-only on a
  view of the world, the viewport with its projections, the density ratio and the
  drawer among them: the view is the same after a transform as before it; the
  transform returns the same in two worlds that the view does not tell apart; and so
  a second call, of the same transform or of the other, returns what it would have
  returned in place of the first. With the identity as the view, calls that write
  nothing give transforms that write nothing.
\<close>

theorem transforms_pure:
  assumes "read_only obs E"
  shows "obs (snd (viewportToDrawerRectangle_eff E rectangle w)) = obs w
   \<and> obs (snd (viewportCoordToDrawerCoord_eff E point w)) = obs w
   \<and> (obs w = obs w' \<longrightarrow>
        fst (viewportToDrawerRectangle_eff E rectangle w) =
          fst (viewportToDrawerRectangle_eff E rectangle w')
        \<and> fst (viewportCoordToDrawerCoord_eff E point w) =
            fst (viewportCoordToDrawerCoord_eff E point w'))
   \<and> fst (viewportToDrawerRectangle_eff E rectangle
            (snd (viewportToDrawerRectangle_eff E rectangle w))) =
       fst (viewportToDrawerRectangle_eff E rectangle w)
   \<and> fst (viewportCoordToDrawerCoord_eff E point
            (snd (viewportCoordToDrawerCoord_eff E point w))) =
       fst (viewportCoordToDrawerCoord_eff E point w)
   \<and> fst (viewportCoordToDrawerCoord_eff E point
            (snd (viewportToDrawerRectangle_eff E rectangle w))) =
       fst (viewportCoordToDrawerCoord_eff E point w)
   \<and> fst (viewportToDrawerRectangle_eff E rectangle
            (snd (viewportCoordToDrawerCoord_eff E point w))) =
       fst (viewportToDrawerRectangle_eff E rectangle w)"
proof -
  let ?R = "viewportToDrawerRectangle_eff E rectangle"
  let ?C = "viewportCoordToDrawerCoord_eff E point"
  have keep: "obs (snd (?R v)) = obs v" "obs (snd (?C v)) = obs v" for v
    using rectangle_leaves_alone [OF assms, of rectangle] point_leaves_alone [OF assms, of point]
    by (simp_all add: leaves_alone_def)
  have same: "fst (?R u) = fst (?R v)" "fst (?C u) = fst (?C v)" if "obs u = obs v" for u v
    using that rectangle_answers_from [OF assms, of rectangle]
      point_answers_from [OF assms, of point]
    unfolding answers_from_def by blast+
  show ?thesis
  proof (intro conjI impI)
    show "obs (snd (?R w)) = obs w" by (rule keep(1))
    show "obs (snd (?C w)) = obs w" by (rule keep(2))
    show "fst (?R w) = fst (?R w')" if "obs w = obs w'" using that by (rule same(1))
    show "fst (?C w) = fst (?C w')" if "obs w = obs w'" using that by (rule same(2))
    show "fst (?R (snd (?R w))) = fst (?R w)" by (rule same(1)) (rule keep(1))
    show "fst (?C (snd (?C w))) = fst (?C w)" by (rule same(2)) (rule keep(2))
    show "fst (?C (snd (?R w))) = fst (?C w)" by (rule same(2)) (rule keep(1))
    show "fst (?R (snd (?C w))) = fst (?R w)" by (rule same(1)) (rule keep(2))
  qed
qed


theorem transforms_pure_witness:
  "read_only (\<lambda>w. w) pure_calls
   \<and> snd (viewportToDrawerRectangle_eff pure_calls fractional_rect retina_state) = retina_state
   \<and> fst (viewportCoordToDrawerCoord_eff pure_calls degenerate_point
            (snd (viewportCoordToDrawerCoord_eff pure_calls degenerate_point retina_state))) =
       Inr \<lparr>pt_x = Inf True, pt_y = NaN\<rparr>
   \<and> read_only snd counting_calls
   \<and> snd (viewportToDrawerRectangle_eff counting_calls fractional_rect (0, retina_state)) =
       (2, retina_state)
   \<and> fst (viewportToDrawerRectangle_eff counting_calls fractional_rect (7, retina_state)) =
       fst (viewportToDrawerRectangle_eff counting_calls fractional_rect (0, retina_state))"
proof -
  have p: "viewportCoordToDrawerCoord_eff pure_calls degenerate_point retina_state =
      (Inr \<lparr>pt_x = Inf True, pt_y = NaN\<rparr>, retina_state)"
    by (simp add: pure_calls_point viewportCoordToDrawerCoord_eq [OF retina_state_fields(1)]
        retina_state_fields(2) unit_viewport_fields degenerate_point_def number_defs
        bit_length.simps)
  have c: "snd (viewportToDrawerRectangle_eff counting_calls fractional_rect (0, retina_state)) =
      (2, retina_state)"
    using counting_calls_write [OF retina_state_fields(1), of fractional_rect 0]
    by (simp add: numeral_2_eq_2)
  note 1 = transforms_pure [OF pure_calls_read_only, of fractional_rect retina_state
      degenerate_point retina_state]
  note 2 = transforms_pure [OF counting_calls_read_only, of fractional_rect "(7, retina_state)"
      degenerate_point "(0, retina_state)"]
  from 1 have "snd (viewportToDrawerRectangle_eff pure_calls fractional_rect retina_state) =
      retina_state"
    by blast
  moreover from 1 p have "fst (viewportCoordToDrawerCoord_eff pure_calls degenerate_point
            (snd (viewportCoordToDrawerCoord_eff pure_calls degenerate_point retina_state))) =
       Inr \<lparr>pt_x = Inf True, pt_y = NaN\<rparr>"
    by simp
  moreover from 2 have "fst (viewportToDrawerRectangle_eff counting_calls fractional_rect (7, retina_state)) =
       fst (viewportToDrawerRectangle_eff counting_calls fractional_rect (0, retina_state))"
    by simp
  ultimately show ?thesis
    using pure_calls_read_only counting_calls_read_only c by blast
qed

text \<open>
  C7. On a drawer with a viewport, the two transforms applied to a rectangle and to a
  point, and the computation of the surface size, return a value and do not throw,
  whatever numbers the rectangle, the point, the container size and the pixel density
  ratio hold. A projected coordinate or a container size that is not finite gives
  a result coordinate that is not finite, and so does a pixel density ratio that is
  not finite.
\<close>

theorem transforms_total:
  "viewport (snd st) = JViewport vp \<longrightarrow>
     (\<exists>r. fst (viewportToDrawerRectangle (JRect rc) st) = Inr r
        \<and> (\<not> is_finite (pt_x (pixelFromPointNoRotate vp (getTopLeft rc) True)) \<longrightarrow> \<not> is_finite (rect_x r))
        \<and> (\<not> is_finite (pt_y (pixelFromPointNoRotate vp (getTopLeft rc) True)) \<longrightarrow> \<not> is_finite (rect_y r))
        \<and> (\<not> is_finite (pt_x (deltaPixelsFromPointsNoRotate vp (getSize rc) True)) \<longrightarrow> \<not> is_finite (rect_width r))
        \<and> (\<not> is_finite (pt_y (deltaPixelsFromPointsNoRotate vp (getSize rc) True)) \<longrightarrow> \<not> is_finite (rect_height r))
        \<and> (\<not> is_finite (pixelDensityRatio (fst st)) \<longrightarrow>
             \<not> is_finite (rect_x r) \<and> \<not> is_finite (rect_y r)
             \<and> \<not> is_finite (rect_width r) \<and> \<not> is_finite (rect_height r)))
   \<and> (\<exists>q. fst (viewportCoordToDrawerCoord (JPoint p) st) = Inr q
        \<and> (\<not> is_finite (pt_x (pixelFromPointNoRotate vp p True)) \<longrightarrow> \<not> is_finite (pt_x q))
        \<and> (\<not> is_finite (pt_y (pixelFromPointNoRotate vp p True)) \<longrightarrow> \<not> is_finite (pt_y q))
        \<and> (\<not> is_finite (pixelDensityRatio (fst st)) \<longrightarrow>
             \<not> is_finite (pt_x q) \<and> \<not> is_finite (pt_y q)))
   \<and> (\<exists>sz. calculateCanvasSize (fst st) (viewport (snd st)) = Inr sz
        \<and> (\<not> is_finite (pt_x (getContainerSize vp)) \<longrightarrow> \<not> is_finite (pt_x sz))
        \<and> (\<not> is_finite (pt_y (getContainerSize vp)) \<longrightarrow> \<not> is_finite (pt_y sz))
        \<and> (\<not> is_finite (pixelDensityRatio (fst st)) \<longrightarrow>
             \<not> is_finite (pt_x sz) \<and> \<not> is_finite (pt_y sz)))"
  by (simp add: viewportToDrawerRectangle_eq viewportCoordToDrawerCoord_eq
      fmul_not_finite_left fmul_not_finite_right Math_round_not_finite)

theorem transforms_total_witness:
  "viewport (snd retina_state) = JViewport unit_viewport
   \<and> \<not> is_finite (pt_x (pixelFromPointNoRotate unit_viewport (getTopLeft degenerate_rect) True))
   \<and> (\<exists>r. fst (viewportToDrawerRectangle (JRect degenerate_rect) retina_state) = Inr r
         \<and> \<not> is_finite (rect_x r) \<and> \<not> is_finite (rect_y r) \<and> \<not> is_finite (rect_width r))
   \<and> (\<exists>q. fst (viewportCoordToDrawerCoord (JPoint degenerate_point) retina_state) = Inr q
         \<and> \<not> is_finite (pt_x q) \<and> \<not> is_finite (pt_y q))
   \<and> (\<exists>sz. calculateCanvasSize (fst retina_state) (viewport (snd retina_state)) = Inr sz)
   \<and> viewport (snd degenerate_state) = JViewport degenerate_viewport
   \<and> \<not> is_finite (pixelDensityRatio (fst degenerate_state))
   \<and> (\<exists>r. fst (viewportToDrawerRectangle (JRect fractional_rect) degenerate_state) = Inr r
         \<and> \<not> is_finite (rect_x r) \<and> \<not> is_finite (rect_y r)
         \<and> \<not> is_finite (rect_width r) \<and> \<not> is_finite (rect_height r))
   \<and> (\<exists>sz. calculateCanvasSize (fst degenerate_state) (viewport (snd degenerate_state)) = Inr sz
         \<and> \<not> is_finite (pt_x sz) \<and> \<not> is_finite (pt_y sz))"
proof -
  have h: "viewport (snd retina_state) = JViewport unit_viewport"
    by (rule retina_state_fields(1))
  have n: "\<not> is_finite (pt_x (pixelFromPointNoRotate unit_viewport (getTopLeft degenerate_rect) True))"
    "\<not> is_finite (pt_y (pixelFromPointNoRotate unit_viewport (getTopLeft degenerate_rect) True))"
    "\<not> is_finite (pt_x (deltaPixelsFromPointsNoRotate unit_viewport (getSize degenerate_rect) True))"
    "\<not> is_finite (pt_x (pixelFromPointNoRotate unit_viewport degenerate_point True))"
    "\<not> is_finite (pt_y (pixelFromPointNoRotate unit_viewport degenerate_point True))"
    by (simp_all add: unit_viewport_fields getTopLeft_def getSize_def degenerate_rect_def
        degenerate_point_def)
  have h': "viewport (snd degenerate_state) = JViewport degenerate_viewport"
    by (simp add: degenerate_state_def)
  have n': "\<not> is_finite (pixelDensityRatio (fst degenerate_state))"
    "\<not> is_finite (pt_x (getContainerSize degenerate_viewport))"
    "\<not> is_finite (pt_y (getContainerSize degenerate_viewport))"
    by (simp_all add: degenerate_state_def degenerate_viewport_def)
  from transforms_total [of retina_state unit_viewport degenerate_rect degenerate_point] h n
  have 1: "(\<exists>r. fst (viewportToDrawerRectangle (JRect degenerate_rect) retina_state) = Inr r
         \<and> \<not> is_finite (rect_x r) \<and> \<not> is_finite (rect_y r) \<and> \<not> is_finite (rect_width r))
   \<and> (\<exists>q. fst (viewportCoordToDrawerCoord (JPoint degenerate_point) retina_state) = Inr q
         \<and> \<not> is_finite (pt_x q) \<and> \<not> is_finite (pt_y q))
   \<and> (\<exists>sz. calculateCanvasSize (fst retina_state) (viewport (snd retina_state)) = Inr sz)"
    by blast
  from transforms_total [of degenerate_state degenerate_viewport fractional_rect degenerate_point]
    h' n'
  have 2: "(\<exists>r. fst (viewportToDrawerRectangle (JRect fractional_rect) degenerate_state) = Inr r
         \<and> \<not> is_finite (rect_x r) \<and> \<not> is_finite (rect_y r)
         \<and> \<not> is_finite (rect_width r) \<and> \<not> is_finite (rect_height r))
   \<and> (\<exists>sz. calculateCanvasSize (fst degenerate_state) (viewport (snd degenerate_state)) = Inr sz
         \<and> \<not> is_finite (pt_x sz) \<and> \<not> is_finite (pt_y sz))"
    by blast
  from h n(1) 1 h' n'(1) 2 show ?thesis
    by blast
qed

section \<open>Positional arguments\<close>

text \<open>
  C8. Line 48 asserts \<open>options.viewer\<close> on the first argument as it was passed, before
  lines 54 to 60 put positional arguments into an options object. Three positional
  calls with a viewport and an element: without a tile source the constructor throws
  a TypeError, and with an ordinary tile source the assertion for the viewer fails,
  though in both cases the rest of the constructor builds an instance from the
  normalized options; with a tile source that has a property \<open>viewer\<close> an instance is
  returned, though the options that these arguments are normalized to fail that
  assertion when they are passed as an options object.
\<close>

theorem positional_arguments_diverge:
  "DrawerBase retina complete_api sourceless_args = Inl TypeError
   \<and> construct retina complete_api (normalizeOptions sourceless_args) = Inr (legacy_drawer, [])
   \<and> DrawerBase retina complete_api ordinary_args =
       Inl (AssertionError ''[Drawer] options.viewer is required'')
   \<and> construct retina complete_api (normalizeOptions ordinary_args) =
       Inr (legacy_drawer,
            [''[Drawer] options.source is no longer accepted; use TiledImage instead''])
   \<and> DrawerBase retina complete_api legacy_args =
       Inr (legacy_drawer,
            [''[Drawer] options.source is no longer accepted; use TiledImage instead''])
   \<and> DrawerBase retina complete_api [normalizeOptions legacy_args] =
       Inl (AssertionError ''[Drawer] options.viewer is required'')"
proof (intro conjI)
  show "DrawerBase retina complete_api sourceless_args = Inl TypeError"
    by (simp add: DrawerBase_def sourceless_args_def)
  show "construct retina complete_api (normalizeOptions sourceless_args) = Inr (legacy_drawer, [])"
    by (simp add: positional_normalized positional_options)
  show "DrawerBase retina complete_api ordinary_args =
       Inl (AssertionError ''[Drawer] options.viewer is required'')"
    by (simp add: DrawerBase_def ordinary_args_def console_assert_def)
  show "construct retina complete_api (normalizeOptions ordinary_args) =
       Inr (legacy_drawer,
            [''[Drawer] options.source is no longer accepted; use TiledImage instead''])"
    by (simp add: positional_normalized positional_options)
  show "DrawerBase retina complete_api legacy_args =
       Inr (legacy_drawer,
            [''[Drawer] options.source is no longer accepted; use TiledImage instead''])"
    by (rule legacy_construction)
  show "DrawerBase retina complete_api [normalizeOptions legacy_args] =
     Inl (AssertionError ''[Drawer] options.viewer is required'')"
    by (simp add: legacy_normalized DrawerBase_def console_assert_def)
qed

section \<open>The marker is read-only\<close>

lemma assign_keeps_marker_inherited:
  "map_of own ''isOpenSeadragonDrawer'' = None \<Longrightarrow>
   map_of (assign own kv) ''isOpenSeadragonDrawer'' = None"
  by (auto simp: assign_def getter_only_def map_of_eq_None_iff image_iff)

lemma assignments_keep_marker_inherited:
  "map_of own ''isOpenSeadragonDrawer'' = None \<Longrightarrow>
   map_of (foldl assign own kvs) ''isOpenSeadragonDrawer'' = None"
  by (induction kvs arbitrary: own) (simp_all add: assign_keeps_marker_inherited)

lemma own_properties_no_marker:
  "map_of (own_properties d) ''isOpenSeadragonDrawer'' = None"
  by (simp add: own_properties_def)

text \<open>
  C9. On every instance, after any sequence of assignments to any of its properties,
  \<open>isOpenSeadragonDrawer\<close> reads \<open>true\<close>, and an assignment to
  \<open>isOpenSeadragonDrawer\<close> itself changes nothing.
\<close>

theorem capability_marker:
  "isOpenSeadragonDrawer (foldl assign (own_properties d) kvs) = JBool True
   \<and> assign (foldl assign (own_properties d) kvs) (''isOpenSeadragonDrawer'', v) =
       foldl assign (own_properties d) kvs"
  using assignments_keep_marker_inherited [OF own_properties_no_marker, of d kvs]
  by (simp add: isOpenSeadragonDrawer_def getter_only_def assign_def)

theorem capability_marker_witness:
  "isOpenSeadragonDrawer (own_properties good_drawer) = JBool True
   \<and> isOpenSeadragonDrawer
        (foldl assign (own_properties good_drawer)
           [(''isOpenSeadragonDrawer'', JBool False), (''viewer'', JNull),
            (''isOpenSeadragonDrawer'', JUndefined)]) = JBool True"
  using capability_marker [of good_drawer "[]" JNull]
    capability_marker [of good_drawer "[(''isOpenSeadragonDrawer'', JBool False), (''viewer'', JNull),
            (''isOpenSeadragonDrawer'', JUndefined)]" JNull]
  by simp

section \<open>The grid colour\<close>

text \<open>
  C10, as amended. When the constructor returns an instance, its \<open>debugGridColor\<close> is
  the one-element array of the option if the option is a string, empty or not; the
  default of the library if the option is not a string and is missing or falsy; and the
  option itself otherwise.
\<close>

theorem debugGridColor_normalized:
  "DrawerBase S this_api args = Inr (d, msgs) \<longrightarrow>
     (\<forall>s. readProp (normalizeOptions args) ''debugGridColor'' = JStr s \<longrightarrow>
          debugGridColor d = JArray [JStr s])
     \<and> (\<not> typeof_string (readProp (normalizeOptions args) ''debugGridColor'')
         \<and> \<not> truthy (readProp (normalizeOptions args) ''debugGridColor'') \<longrightarrow>
          debugGridColor d = DEFAULT_SETTINGS_debugGridColor S)
     \<and> (\<not> typeof_string (readProp (normalizeOptions args) ''debugGridColor'')
         \<and> truthy (readProp (normalizeOptions args) ''debugGridColor'') \<longrightarrow>
          debugGridColor d = readProp (normalizeOptions args) ''debugGridColor'')"
proof
  assume "DrawerBase S this_api args = Inr (d, msgs)"
  then have "construct S this_api (normalizeOptions args) = Inr (d, msgs)"
    by (rule DrawerBase_Inr_construct)
  then have "debugGridColor d =
      normalizeDebugGridColor S (readProp (normalizeOptions args) ''debugGridColor'')"
    by (simp add: construct_Inr_fields)
  then show "(\<forall>s. readProp (normalizeOptions args) ''debugGridColor'' = JStr s \<longrightarrow>
          debugGridColor d = JArray [JStr s])
     \<and> (\<not> typeof_string (readProp (normalizeOptions args) ''debugGridColor'')
         \<and> \<not> truthy (readProp (normalizeOptions args) ''debugGridColor'') \<longrightarrow>
          debugGridColor d = DEFAULT_SETTINGS_debugGridColor S)
     \<and> (\<not> typeof_string (readProp (normalizeOptions args) ''debugGridColor'')
         \<and> truthy (readProp (normalizeOptions args) ''debugGridColor'') \<longrightarrow>
          debugGridColor d = readProp (normalizeOptions args) ''debugGridColor'')"
    by (simp add: normalizeDebugGridColor_def js_or_def)
qed

theorem debugGridColor_normalized_witness:
  "DrawerBase retina complete_api [options_with_color (JStr ''red'')] =
     Inr (good_drawer\<lparr>debugGridColor := JArray [JStr ''red'']\<rparr>, [])
   \<and> DrawerBase retina complete_api [options_with_color JNull] =
     Inr (good_drawer\<lparr>debugGridColor := DEFAULT_SETTINGS_debugGridColor retina\<rparr>, [])
   \<and> DrawerBase retina complete_api [options_with_color (JArray [JStr ''red'', JStr ''blue''])] =
     Inr (good_drawer\<lparr>debugGridColor := JArray [JStr ''red'', JStr ''blue'']\<rparr>, [])"
proof -
  let ?d = "\<lambda>c. good_drawer\<lparr>debugGridColor := normalizeDebugGridColor retina c\<rparr>"
  have 1: "debugGridColor (?d (JStr ''red'')) = JArray [JStr ''red'']"
    using debugGridColor_normalized
      [of retina complete_api "[options_with_color (JStr ''red'')]" "?d (JStr ''red'')" "[]"]
    by (simp add: color_construction color_read)
  have 2: "debugGridColor (?d JNull) = DEFAULT_SETTINGS_debugGridColor retina"
    using debugGridColor_normalized
      [of retina complete_api "[options_with_color JNull]" "?d JNull" "[]"]
    by (simp add: color_construction color_read)
  have 3: "debugGridColor (?d (JArray [JStr ''red'', JStr ''blue''])) =
      JArray [JStr ''red'', JStr ''blue'']"
    using debugGridColor_normalized
      [of retina complete_api "[options_with_color (JArray [JStr ''red'', JStr ''blue''])]"
        "?d (JArray [JStr ''red'', JStr ''blue''])" "[]"]
    by (simp add: color_construction color_read)
  from 1 2 3 show ?thesis
    by (simp add: color_construction)
qed

text \<open>
  C10, as stated, fails for the empty string: it is falsy, and what is stored is the
  array that holds it, not the default.
\<close>

theorem empty_color_counterexample:
  "\<not> truthy (JStr [])
   \<and> map_sum id (debugGridColor \<circ> fst) (DrawerBase retina complete_api [options_with_color (JStr [])]) =
       Inr (JArray [JStr []])
   \<and> JArray [JStr []] \<noteq> DEFAULT_SETTINGS_debugGridColor retina"
  by (simp add: color_construction normalizeDebugGridColor_def retina_fields)

end
